theory Spec2Isabelle
  imports Main
begin

section \<open>Values, errors and the parsed export document\<close>

text \<open>
  The development embeds \<^verbatim>\<open>src/parser.js\<close>.  JavaScript values that can be of more
  than one type at the places the parser compares or stores them (an image id is the
  number \<open>-1\<close> or a string, a cover image id is \<open>undefined\<close> or a string, a date is
  \<open>null\<close> or a string) are values of \<open>jsval\<close>.  On these four shapes the strict
  equality \<^verbatim>\<open>===\<close> is the equality of the datatype.
\<close>

datatype jsval = Undefined | Null | Num int | Str string

datatype error = TypeError | ConversionError

text \<open>
  The document is the tree \<^verbatim>\<open>xml2js\<close> builds: every child tag of an element is a key
  whose value is the array of the children of that name, and a key exists only for a
  tag that occurs, so an array is never empty.  A field of the model is the list of the
  children; the empty list stands for the absent key (\<open>undefined\<close>).  The scalar
  tags of an item are text-only elements, hence strings.  A \<^verbatim>\<open>category\<close> element
  carries attributes: \<^verbatim>\<open>xml2js\<close> turns it into an object with the attribute object
  under \<^verbatim>\<open>$\<close> and the text under \<^verbatim>\<open>_\<close> (absent when the element is empty), and into
  a plain string when it has no attribute.
\<close>

datatype category_node =
  Text string
  | Element "(string \<times> string) list" "string option"

record postmeta_node =
  meta_key :: "string list"
  meta_value :: "string list"

record raw_item =
  post_type :: "string list"
  status :: "string list"
  post_id :: "string list"
  post_name :: "string list"
  post_parent :: "string list"
  pubDate :: "string list"
  link :: "string list"
  creator :: "string list"
  title :: "string list"
  description :: "string list"
  comment_status :: "string list"
  ping_status :: "string list"
  is_sticky :: "string list"
  category :: "category_node list"
  tags :: "string list"
  postmeta :: "postmeta_node list"
  attachment_url :: "string list"
  encoded :: "string list"

record channel_node =
  item :: "raw_item list"

record rss_node =
  channel :: "channel_node list"

record document =
  rss :: "rss_node option"

record config =
  postTypes :: string
  saveAttachedImages :: bool
  saveScrapedImages :: bool

section \<open>Post records and image references\<close>

record post_meta =
  meta_id :: string
  meta_slug :: string
  meta_coverImageId :: jsval
  meta_imageUrls :: "string list"
  meta_type :: string

record post_frontmatter =
  fm_title :: string
  fm_date :: jsval
  fm_slug :: string
  fm_link :: string
  fm_creator :: string
  fm_description :: string
  fm_commentStatus :: string
  fm_pingStatus :: string
  fm_isSticky :: string
  fm_categories :: "jsval list"
  fm_tags :: "jsval list"
  fm_coverImage :: jsval

record post =
  meta :: post_meta
  frontmatter :: post_frontmatter
  content :: string

record image =
  img_id :: jsval
  img_postId :: string
  img_url :: string

text \<open>
  What the parser calls and \<^verbatim>\<open>src/\<close> does not hold: the text conversion of
  \<^verbatim>\<open>./translator\<close> (with the service \<^verbatim>\<open>initTurndownService\<close> returns already passed
  to it), the filename utility of \<^verbatim>\<open>./shared\<close>, the date conversion
  \<^verbatim>\<open>luxon.DateTime.fromRFC2822(s, {zone: 'utc'}).toISODate()\<close> and the platform's
  \<^verbatim>\<open>new URL(input, base).href\<close>.  They are parameters of the model.
\<close>

record env =
  getPostContent :: "raw_item \<Rightarrow> config \<Rightarrow> error + string"
  getFilenameFromUrl :: "string \<Rightarrow> string"
  fromRFC2822_toISODate :: "string \<Rightarrow> jsval"
  URL_href :: "string \<Rightarrow> string \<Rightarrow> error + string"

section \<open>Exceptions as values\<close>

definition bindE :: "error + 'a \<Rightarrow> ('a \<Rightarrow> error + 'b) \<Rightarrow> error + 'b" where
  "bindE m f = (case m of Inl e \<Rightarrow> Inl e | Inr x \<Rightarrow> f x)"

text \<open>\<^verbatim>\<open>xs[0]\<close> on a field: reading index 0 of \<open>undefined\<close> throws a TypeError.\<close>

definition idx0 :: "'a list \<Rightarrow> error + 'a" where
  "idx0 xs = (case xs of [] \<Rightarrow> Inl TypeError | x # _ \<Rightarrow> Inr x)"

text \<open>\<^verbatim>\<open>Array.prototype.filter\<close>, \<^verbatim>\<open>map\<close> and \<^verbatim>\<open>find\<close> with a callback that may throw.\<close>

fun filterE :: "('a \<Rightarrow> error + bool) \<Rightarrow> 'a list \<Rightarrow> error + 'a list" where
  "filterE f [] = Inr []"
| "filterE f (x # xs) =
     bindE (f x) (\<lambda>b. bindE (filterE f xs) (\<lambda>ys. Inr (if b then x # ys else ys)))"

fun mapE :: "('a \<Rightarrow> error + 'b) \<Rightarrow> 'a list \<Rightarrow> error + 'b list" where
  "mapE f [] = Inr []"
| "mapE f (x # xs) = bindE (f x) (\<lambda>y. bindE (mapE f xs) (\<lambda>ys. Inr (y # ys)))"

fun findE :: "('a \<Rightarrow> error + bool) \<Rightarrow> 'a list \<Rightarrow> error + 'a option" where
  "findE f [] = Inr None"
| "findE f (x # xs) = bindE (f x) (\<lambda>b. if b then Inr (Some x) else findE f xs)"

text \<open>\<^verbatim>\<open>s.split(',')\<close>: the pieces between the separators; the empty string gives one
  empty piece.\<close>

fun split_on :: "char \<Rightarrow> string \<Rightarrow> string list" where
  "split_on c [] = [[]]"
| "split_on c (x # xs) =
     (if x = c then [] # split_on c xs
      else (case split_on c xs of [] \<Rightarrow> [[x]] | w # ws \<Rightarrow> (x # w) # ws))"

section \<open>Item classifier\<close>

text \<open>\<^verbatim>\<open>data.rss.channel[0].item\<close>\<close>

definition channel_items :: "document \<Rightarrow> error + raw_item list" where
  "channel_items data =
     (case rss data of
        None \<Rightarrow> Inl TypeError
      | Some r \<Rightarrow>
          (case channel r of
             [] \<Rightarrow> Inl TypeError
           | ch # _ \<Rightarrow> (case item ch of [] \<Rightarrow> Inl TypeError | x # xs \<Rightarrow> Inr (x # xs))))"

definition getItemsOfTypes :: "document \<Rightarrow> string list \<Rightarrow> error + raw_item list" where
  "getItemsOfTypes data types =
     bindE (channel_items data)
       (filterE (\<lambda>it. bindE (idx0 (post_type it)) (\<lambda>t. Inr (t \<in> set types))))"

section \<open>Post extractor\<close>

definition getPostId :: "raw_item \<Rightarrow> error + string" where
  "getPostId p = idx0 (post_id p)"

definition getPostSlug :: "raw_item \<Rightarrow> error + string" where
  "getPostSlug p = idx0 (post_name p)"

definition getPostCoverImageId :: "raw_item \<Rightarrow> error + jsval" where
  "getPostCoverImageId p =
     (if postmeta p = [] then Inr Undefined
      else bindE (findE (\<lambda>pm. bindE (idx0 (meta_key pm)) (\<lambda>k. Inr (k = ''_thumbnail_id'')))
                   (postmeta p))
             (\<lambda>found. case found of
                 None \<Rightarrow> Inr Undefined
               | Some pm \<Rightarrow> bindE (idx0 (meta_value pm)) (\<lambda>v. Inr (Str v))))"

definition getPostType :: "raw_item \<Rightarrow> error + string" where
  "getPostType p = idx0 (post_type p)"

definition getPostTitle :: "raw_item \<Rightarrow> error + string" where
  "getPostTitle p = idx0 (title p)"

definition getPostDate :: "env \<Rightarrow> raw_item \<Rightarrow> error + jsval" where
  "getPostDate E p = bindE (idx0 (pubDate p)) (\<lambda>d. Inr (fromRFC2822_toISODate E d))"

definition getLink :: "raw_item \<Rightarrow> error + string" where
  "getLink p = idx0 (link p)"

definition getCreator :: "raw_item \<Rightarrow> error + string" where
  "getCreator p = idx0 (creator p)"

definition getDescription :: "raw_item \<Rightarrow> error + string" where
  "getDescription p = idx0 (description p)"

definition getCommentStatus :: "raw_item \<Rightarrow> error + string" where
  "getCommentStatus p = idx0 (comment_status p)"

definition getPingStatus :: "raw_item \<Rightarrow> error + string" where
  "getPingStatus p = idx0 (ping_status p)"

definition isSticky :: "raw_item \<Rightarrow> error + string" where
  "isSticky p = idx0 (is_sticky p)"

text \<open>\<^verbatim>\<open>c['$'].domain\<close> and \<^verbatim>\<open>c['_']\<close> on a category node.  A plain string has neither
  property, and reading \<^verbatim>\<open>domain\<close> of \<open>undefined\<close> throws.\<close>

definition node_domain :: "category_node \<Rightarrow> error + jsval" where
  "node_domain c =
     (case c of
        Text s \<Rightarrow> Inl TypeError
      | Element attrs t \<Rightarrow>
          Inr (case map_of attrs ''domain'' of None \<Rightarrow> Undefined | Some d \<Rightarrow> Str d))"

definition node_text :: "category_node \<Rightarrow> jsval" where
  "node_text c =
     (case c of
        Text s \<Rightarrow> Undefined
      | Element attrs t \<Rightarrow> (case t of None \<Rightarrow> Undefined | Some s \<Rightarrow> Str s))"

definition domain_entries :: "string \<Rightarrow> category_node list \<Rightarrow> error + jsval list" where
  "domain_entries d cs =
     bindE (filterE (\<lambda>c. bindE (node_domain c) (\<lambda>v. Inr (v = Str d))) cs)
       (\<lambda>ys. Inr (map node_text ys))"

definition getCategories :: "raw_item \<Rightarrow> error + jsval list" where
  "getCategories p =
     (if category p = [] then Inr [] else domain_entries ''category'' (category p))"

text \<open>The guard of \<^verbatim>\<open>getTags\<close> tests \<^verbatim>\<open>post.tags\<close>; the list read is
  \<^verbatim>\<open>post.category\<close>, whose \<^verbatim>\<open>filter\<close> throws when the key is absent.\<close>

definition getTags :: "raw_item \<Rightarrow> error + jsval list" where
  "getTags p =
     (if tags p = [] then Inr []
      else if category p = [] then Inl TypeError
      else domain_entries ''post_tag'' (category p))"

definition build_post :: "env \<Rightarrow> config \<Rightarrow> raw_item \<Rightarrow> error + post" where
  "build_post E cfg p =
     bindE (getPostId p) (\<lambda>v_id.
     bindE (getPostSlug p) (\<lambda>v_slug.
     bindE (getPostCoverImageId p) (\<lambda>v_cover.
     bindE (getPostType p) (\<lambda>v_type.
     bindE (getPostTitle p) (\<lambda>v_title.
     bindE (getPostDate E p) (\<lambda>v_date.
     bindE (getPostSlug p) (\<lambda>v_slug2.
     bindE (getLink p) (\<lambda>v_link.
     bindE (getCreator p) (\<lambda>v_creator.
     bindE (getDescription p) (\<lambda>v_descr.
     bindE (getCommentStatus p) (\<lambda>v_comment.
     bindE (getPingStatus p) (\<lambda>v_ping.
     bindE (isSticky p) (\<lambda>v_sticky.
     bindE (getCategories p) (\<lambda>v_cats.
     bindE (getTags p) (\<lambda>v_tags.
     bindE (getPostContent E p cfg) (\<lambda>v_content.
       Inr \<lparr> meta = \<lparr> meta_id = v_id, meta_slug = v_slug, meta_coverImageId = v_cover,
                       meta_imageUrls = [], meta_type = v_type \<rparr>,
             frontmatter = \<lparr> fm_title = v_title, fm_date = v_date, fm_slug = v_slug2,
                       fm_link = v_link, fm_creator = v_creator, fm_description = v_descr,
                       fm_commentStatus = v_comment, fm_pingStatus = v_ping,
                       fm_isSticky = v_sticky, fm_categories = v_cats, fm_tags = v_tags,
                       fm_coverImage = Undefined \<rparr>,
             content = v_content \<rparr>))))))))))))))))"

definition collectPosts :: "env \<Rightarrow> document \<Rightarrow> config \<Rightarrow> error + post list" where
  "collectPosts E data cfg =
     bindE (getItemsOfTypes data (split_on CHR '','' (postTypes cfg))) (\<lambda>items.
     bindE (filterE (\<lambda>p. bindE (idx0 (status p))
                            (\<lambda>s. Inr (s \<noteq> ''trash'' \<and> s \<noteq> ''draft''))) items)
       (mapE (build_post E cfg)))"

section \<open>Image collector\<close>

text \<open>Letters are compared without case under the \<^verbatim>\<open>i\<close> flag; only an ASCII letter
  matches an ASCII letter of a pattern.\<close>

definition lower_ascii :: "char \<Rightarrow> char" where
  "lower_ascii c =
     (case map_of (zip ''ABCDEFGHIJKLMNOPQRSTUVWXYZ'' ''abcdefghijklmnopqrstuvwxyz'') c of
        None \<Rightarrow> c
      | Some d \<Rightarrow> d)"

text \<open>A literal of a pattern (written in lower case) matched at the head of the input
  without case; the result is the input after it.\<close>

fun match_ci :: "string \<Rightarrow> string \<Rightarrow> string option" where
  "match_ci [] s = Some s"
| "match_ci (p # ps) [] = None"
| "match_ci (p # ps) (c # cs) = (if lower_ascii c = p then match_ci ps cs else None)"

text \<open>\<^verbatim>\<open>/\.(gif|jpe?g|png)$/i.test(url)\<close>: without the \<^verbatim>\<open>m\<close> flag the dollar is the
  end of the input.\<close>

definition ends_with :: "string \<Rightarrow> string \<Rightarrow> bool" where
  "ends_with suf s = (take (length suf) (rev s) = rev suf)"

definition image_extensions :: "string list" where
  "image_extensions = [''.gif'', ''.jpeg'', ''.jpg'', ''.png'']"

definition has_image_ext :: "string \<Rightarrow> bool" where
  "has_image_ext url = list_ex (\<lambda>suf. ends_with suf (map lower_ascii url)) image_extensions"

definition collectAttachedImages :: "document \<Rightarrow> error + image list" where
  "collectAttachedImages data =
     bindE (getItemsOfTypes data [''attachment'']) (\<lambda>items.
     bindE (filterE (\<lambda>a. bindE (idx0 (attachment_url a)) (\<lambda>u. Inr (has_image_ext u))) items)
       (mapE (\<lambda>a.
          bindE (idx0 (post_id a)) (\<lambda>v_id.
          bindE (idx0 (post_parent a)) (\<lambda>v_parent.
          bindE (idx0 (attachment_url a)) (\<lambda>v_url.
            Inr \<lparr> img_id = Str v_id, img_postId = v_parent, img_url = v_url \<rparr>))))))"

text \<open>
  The pattern of the scraper is
  \<^verbatim>\<open>/<img[^>]*src="(.+?\.(?:gif|jpe?g|png))"[^>]*>/gi\<close>.
  The matcher below is the backtracking search for it, piece by piece, in the order a
  regular expression engine tries the alternatives.  Strings are lists of 8-bit code
  units; the dot excludes the line terminators LF and CR.
\<close>

text \<open>The end of the pattern, \<^verbatim>\<open>[^>]*>\<close>: the greedy run stops before the first closing
  bracket, and only there can the bracket match.\<close>

definition close_tag :: "string \<Rightarrow> string option" where
  "close_tag s = (case dropWhile (\<lambda>c. c \<noteq> CHR ''>'') s of [] \<Rightarrow> None | _ # r \<Rightarrow> Some r)"

text \<open>\<^verbatim>\<open>\.(?:gif|jpe?g|png)"[^>]*>\<close>: the alternatives from left to right, the optional
  \<^verbatim>\<open>e\<close> taken first.  The result is the extension as the input spells it, and the
  input after the whole match.\<close>

fun try_exts :: "string list \<Rightarrow> string \<Rightarrow> (string \<times> string) option" where
  "try_exts [] s = None"
| "try_exts (e # es) s =
     (case match_ci e s of
        None \<Rightarrow> try_exts es s
      | Some r \<Rightarrow>
          (case match_ci [CHR 0x22] r of
             None \<Rightarrow> try_exts es s
           | Some r2 \<Rightarrow>
               (case close_tag r2 of
                  None \<Rightarrow> try_exts es s
                | Some rest \<Rightarrow> Some (take (length e) s, rest))))"

text \<open>The group \<^verbatim>\<open>(.+?\.(?:gif|jpe?g|png))\<close>: the lazy \<^verbatim>\<open>.+?\<close> takes one character,
  then one more each time the rest of the pattern fails.\<close>

fun capture :: "string \<Rightarrow> string \<Rightarrow> (string \<times> string) option" where
  "capture acc [] = None"
| "capture acc (c # cs) =
     (if c = CHR 0x0A \<or> c = CHR 0x0D then None
      else (case try_exts [''.gif'', ''.jpeg'', ''.jpg'', ''.png''] cs of
              Some (e, rest) \<Rightarrow> Some (rev (c # acc) @ e, rest)
            | None \<Rightarrow> capture (c # acc) cs))"

definition src_attr :: "string \<Rightarrow> (string \<times> string) option" where
  "src_attr s = (case match_ci (''src='' @ [CHR 0x22]) s of None \<Rightarrow> None | Some r \<Rightarrow> capture [] r)"

text \<open>\<^verbatim>\<open>[^>]*\<close> after \<^verbatim>\<open><img\<close>, greedy: the longest run first, one character given back
  each time the rest of the pattern fails.\<close>

fun after_img :: "string \<Rightarrow> (string \<times> string) option" where
  "after_img [] = src_attr []"
| "after_img (c # cs) =
     (if c = CHR ''>'' then src_attr (c # cs)
      else (case after_img cs of Some r \<Rightarrow> Some r | None \<Rightarrow> src_attr (c # cs)))"

definition match_at :: "string \<Rightarrow> (string \<times> string) option" where
  "match_at s = (case match_ci ''<img'' s of None \<Rightarrow> None | Some r \<Rightarrow> after_img r)"

text \<open>\<^verbatim>\<open>matchAll\<close> with the \<^verbatim>\<open>g\<close> flag: the leftmost match, then the search goes on
  after it.  The list holds group 1 of every match.  A match is never empty, so the
  test on the lengths always succeeds (lemma \<open>match_at_shorter\<close>).\<close>

fun img_srcs :: "string \<Rightarrow> string list" where
  "img_srcs [] = []"
| "img_srcs (c # cs) =
     (case match_at (c # cs) of
        None \<Rightarrow> img_srcs cs
      | Some (m, rest) \<Rightarrow> (if length rest < Suc (length cs) then m # img_srcs rest else []))"

text \<open>The two callbacks of \<^verbatim>\<open>collectScrapedImages\<close>: the inner one makes the reference
  of one match, the outer one scans one item.\<close>

definition scraped_image :: "env \<Rightarrow> string \<Rightarrow> string \<Rightarrow> string \<Rightarrow> error + image" where
  "scraped_image E postId postLink m =
     bindE (URL_href E m postLink) (\<lambda>url.
       Inr \<lparr> img_id = Num (- 1), img_postId = postId, img_url = url \<rparr>)"

definition scrape_post :: "env \<Rightarrow> raw_item \<Rightarrow> error + image list" where
  "scrape_post E p =
     bindE (idx0 (post_id p)) (\<lambda>postId.
     bindE (idx0 (encoded p)) (\<lambda>postContent.
     bindE (idx0 (link p)) (\<lambda>postLink.
       mapE (scraped_image E postId postLink) (img_srcs postContent))))"

definition collectScrapedImages :: "env \<Rightarrow> document \<Rightarrow> config \<Rightarrow> error + image list" where
  "collectScrapedImages E data cfg =
     bindE (getItemsOfTypes data (split_on CHR '','' (postTypes cfg))) (\<lambda>items.
     bindE (mapE (scrape_post E) items) (\<lambda>found. Inr (concat found)))"

section \<open>Image merger\<close>

text \<open>
  \<^verbatim>\<open>postsLookup\<close> is a plain object used as a dictionary from post id to post.  Its own
  properties map a key to the post stored under it (a reference: the index of the post
  in the array).  A plain object also inherits from its prototype.  Assigning to the
  key \<^verbatim>\<open>__proto__\<close> calls the inherited setter, which makes the assigned post the
  prototype of the object and creates no own property; reading that key returns the
  prototype.  Reading any other key that is not an own property goes up the chain:
  through the post installed as prototype, if any (its properties \<^verbatim>\<open>meta\<close>,
  \<^verbatim>\<open>frontmatter\<close> and \<^verbatim>\<open>content\<close>), then through \<^verbatim>\<open>Object.prototype\<close>.
\<close>

record lookup =
  own :: "string \<rightharpoonup> nat"
  proto :: "nat option"

definition empty_lookup :: lookup where
  "empty_lookup = \<lparr> own = Map.empty, proto = None \<rparr>"

definition set_prop :: "lookup \<Rightarrow> string \<Rightarrow> nat \<Rightarrow> lookup" where
  "set_prop L k i =
     (if k = ''__proto__'' then L\<lparr> proto := Some i \<rparr> else L\<lparr> own := (own L)(k \<mapsto> i) \<rparr>)"

text \<open>The \<^verbatim>\<open>reduce\<close> that fills the table, with the index of the post at hand.\<close>

fun build_lookup :: "post list \<Rightarrow> nat \<Rightarrow> lookup \<Rightarrow> lookup" where
  "build_lookup [] i L = L"
| "build_lookup (p # ps) i L = build_lookup ps (Suc i) (set_prop L (meta_id (meta p)) i)"

definition object_prototype_names :: "string list" where
  "object_prototype_names =
     [''constructor'', ''hasOwnProperty'', ''isPrototypeOf'', ''propertyIsEnumerable'',
      ''toLocaleString'', ''toString'', ''valueOf'', ''__defineGetter__'',
      ''__defineSetter__'', ''__lookupGetter__'', ''__lookupSetter__'']"

text \<open>What \<^verbatim>\<open>postsLookup[key]\<close> evaluates to: a post of the array, another truthy value
  (a function or object that is not a post, or a non-empty string), or a falsy value
  (\<open>undefined\<close>, or an empty content string).\<close>

datatype property = PostRef nat | OtherValue | Falsy

definition inherited :: "string \<Rightarrow> property" where
  "inherited k = (if k \<in> set object_prototype_names then OtherValue else Falsy)"

definition get_prop :: "post list \<Rightarrow> lookup \<Rightarrow> string \<Rightarrow> property" where
  "get_prop posts L k =
     (case own L k of
        Some i \<Rightarrow> PostRef i
      | None \<Rightarrow>
          (case proto L of
             None \<Rightarrow> (if k = ''__proto__'' then OtherValue else inherited k)
           | Some j \<Rightarrow>
               (if k = ''__proto__'' then PostRef j
                else if k = ''meta'' \<or> k = ''frontmatter'' then OtherValue
                else if k = ''content'' then
                  (if j < length posts \<and> content (posts ! j) \<noteq> [] then OtherValue else Falsy)
                else inherited k)))"

text \<open>
  The body of the \<^verbatim>\<open>forEach\<close> for one image.  The array of posts is the state; the
  result is the state after the step and the exception, if one was thrown.  A truthy
  value that is not a post has no \<^verbatim>\<open>meta\<close>, and reading \<^verbatim>\<open>coverImageId\<close> of
  \<open>undefined\<close> throws.
\<close>

definition merge_image :: "env \<Rightarrow> lookup \<Rightarrow> image \<Rightarrow> post list \<Rightarrow> post list \<times> error option" where
  "merge_image E L im posts =
     (case get_prop posts L (img_postId im) of
        Falsy \<Rightarrow> (posts, None)
      | OtherValue \<Rightarrow> (posts, Some TypeError)
      | PostRef i \<Rightarrow>
          (let p = posts ! i;
               p1 = (if img_id im = meta_coverImageId (meta p)
                     then p\<lparr> frontmatter := (frontmatter p)
                              \<lparr> fm_coverImage := Str (getFilenameFromUrl E (img_url im)) \<rparr> \<rparr>
                     else p);
               p2 = (if img_url im \<in> set (meta_imageUrls (meta p1)) then p1
                     else p1\<lparr> meta := (meta p1)
                              \<lparr> meta_imageUrls := meta_imageUrls (meta p1) @ [img_url im] \<rparr> \<rparr>)
           in (posts[i := p2], None)))"

fun merge_loop :: "env \<Rightarrow> lookup \<Rightarrow> image list \<Rightarrow> post list \<Rightarrow> post list \<times> error option" where
  "merge_loop E L [] posts = (posts, None)"
| "merge_loop E L (im # ims) posts =
     (case merge_image E L im posts of
        (posts', Some e) \<Rightarrow> (posts', Some e)
      | (posts', None) \<Rightarrow> merge_loop E L ims posts')"

definition postsLookup :: "post list \<Rightarrow> lookup" where
  "postsLookup posts = build_lookup posts 0 empty_lookup"

definition mergeImagesIntoPosts :: "env \<Rightarrow> image list \<Rightarrow> post list \<Rightarrow> post list \<times> error option" where
  "mergeImagesIntoPosts E images posts = merge_loop E (postsLookup posts) images posts"

section \<open>The pipeline\<close>

text \<open>Lines 18 to 24 of \<^verbatim>\<open>parseFilePromise\<close>: the attached images first, then the
  scraped ones, each when its switch is on.\<close>

definition collectImages :: "env \<Rightarrow> document \<Rightarrow> config \<Rightarrow> error + image list" where
  "collectImages E data cfg =
     bindE (if saveAttachedImages cfg then collectAttachedImages data else Inr []) (\<lambda>attached.
     bindE (if saveScrapedImages cfg then collectScrapedImages E data cfg else Inr []) (\<lambda>scraped.
       Inr (attached @ scraped)))"

text \<open>\<^verbatim>\<open>parseFilePromise\<close> from line 16 on, the document loaded.\<close>

definition parseFilePromise :: "env \<Rightarrow> document \<Rightarrow> config \<Rightarrow> error + post list" where
  "parseFilePromise E data cfg =
     bindE (collectPosts E data cfg) (\<lambda>posts.
     bindE (collectImages E data cfg) (\<lambda>images.
       (case mergeImagesIntoPosts E images posts of
          (posts', Some e) \<Rightarrow> Inl e
        | (posts', None) \<Rightarrow> Inr posts')))"

section \<open>The collaborators, modelled\<close>

subsection \<open>Resolving a reference against a base URL\<close>

text \<open>
  Modelled from the spec: the platform's \<^verbatim>\<open>new URL(input, base).href\<close>, which
  \<^verbatim>\<open>src/\<close> does not hold.  The spec has it "resolve each match to an absolute URL
  using the item's canonical link as the base".  The model is the reference resolution
  of RFC 3986, section 5.2 (split into components, merge the paths, remove the dot
  segments, recompose), on which the URL constructor agrees for an \<^verbatim>\<open>http\<close> or
  \<^verbatim>\<open>https\<close> base and a reference of plain URL characters; a base without a scheme is
  not a URL, and the constructor throws.  The constructor's further normalisations
  (percent-encoding, lower-casing of the host, default ports) are not modelled.
\<close>

record uri =
  uri_scheme :: "string option"
  uri_authority :: "string option"
  uri_path :: string
  uri_query :: "string option"
  uri_fragment :: "string option"

definition is_alpha :: "char \<Rightarrow> bool" where
  "is_alpha c = (lower_ascii c \<in> set ''abcdefghijklmnopqrstuvwxyz'')"

definition is_scheme_char :: "char \<Rightarrow> bool" where
  "is_scheme_char c = (is_alpha c \<or> c \<in> set ''0123456789+-.'')"

definition parse_uri :: "string \<Rightarrow> uri" where
  "parse_uri s =
     (let a = takeWhile (\<lambda>c. c \<notin> set '':/?#'') s;
          b = dropWhile (\<lambda>c. c \<notin> set '':/?#'') s;
          has_scheme = (a \<noteq> [] \<and> is_alpha (hd a) \<and> list_all is_scheme_char a
                        \<and> take 1 b = '':'');
          r1 = (if has_scheme then drop 1 b else s);
          has_auth = (take 2 r1 = ''//'');
          auth = takeWhile (\<lambda>c. c \<notin> set ''/?#'') (drop 2 r1);
          r2 = (if has_auth then dropWhile (\<lambda>c. c \<notin> set ''/?#'') (drop 2 r1) else r1);
          p = takeWhile (\<lambda>c. c \<notin> set ''?#'') r2;
          r3 = dropWhile (\<lambda>c. c \<notin> set ''?#'') r2;
          has_query = (take 1 r3 = ''?'');
          q = takeWhile (\<lambda>c. c \<noteq> CHR ''#'') (drop 1 r3);
          r4 = (if has_query then dropWhile (\<lambda>c. c \<noteq> CHR ''#'') (drop 1 r3) else r3)
      in \<lparr> uri_scheme = (if has_scheme then Some a else None),
           uri_authority = (if has_auth then Some auth else None),
           uri_path = p,
           uri_query = (if has_query then Some q else None),
           uri_fragment = (if take 1 r4 = ''#'' then Some (drop 1 r4) else None) \<rparr>)"

text \<open>Dot segments, on the segments of an absolute path: \<^verbatim>\<open>.\<close> is dropped, \<^verbatim>\<open>..\<close> drops
  the segment before it, and either of them in last position leaves a trailing slash.\<close>

fun dot_segments :: "string list \<Rightarrow> string list \<Rightarrow> string list" where
  "dot_segments out [] = rev out"
| "dot_segments out [s] =
     (if s = ''..'' then rev ([] # tl out)
      else if s = ''.'' then rev ([] # out)
      else rev (s # out))"
| "dot_segments out (s # t # ss) =
     (if s = ''..'' then dot_segments (tl out) (t # ss)
      else if s = ''.'' then dot_segments out (t # ss)
      else dot_segments (s # out) (t # ss))"

fun join_segments :: "string list \<Rightarrow> string" where
  "join_segments [] = []"
| "join_segments (s # ss) = CHR ''/'' # s @ join_segments ss"

definition remove_dot_segments :: "string \<Rightarrow> string" where
  "remove_dot_segments p =
     (if take 1 p = ''/'' then join_segments (dot_segments [] (split_on CHR ''/'' (drop 1 p)))
      else p)"

text \<open>The base path up to its last slash, then the reference.\<close>

definition merge_paths :: "uri \<Rightarrow> string \<Rightarrow> string" where
  "merge_paths b r =
     (if uri_authority b \<noteq> None \<and> uri_path b = [] then CHR ''/'' # r
      else rev (dropWhile (\<lambda>c. c \<noteq> CHR ''/'') (rev (uri_path b))) @ r)"

definition resolve_reference :: "uri \<Rightarrow> uri \<Rightarrow> uri" where
  "resolve_reference b r =
     (if uri_scheme r \<noteq> None then r\<lparr> uri_path := remove_dot_segments (uri_path r) \<rparr>
      else if uri_authority r \<noteq> None then
        r\<lparr> uri_scheme := uri_scheme b, uri_path := remove_dot_segments (uri_path r) \<rparr>
      else if uri_path r = [] then
        b\<lparr> uri_query := (if uri_query r \<noteq> None then uri_query r else uri_query b),
           uri_fragment := uri_fragment r \<rparr>
      else if take 1 (uri_path r) = ''/'' then
        b\<lparr> uri_path := remove_dot_segments (uri_path r), uri_query := uri_query r,
           uri_fragment := uri_fragment r \<rparr>
      else
        b\<lparr> uri_path := remove_dot_segments (merge_paths b (uri_path r)),
           uri_query := uri_query r, uri_fragment := uri_fragment r \<rparr>)"

definition recompose :: "uri \<Rightarrow> string" where
  "recompose u =
     (case uri_scheme u of None \<Rightarrow> [] | Some s \<Rightarrow> s @ '':'')
     @ (case uri_authority u of None \<Rightarrow> [] | Some a \<Rightarrow> ''//'' @ a)
     @ (if uri_authority u \<noteq> None \<and> uri_path u = [] then ''/'' else uri_path u)
     @ (case uri_query u of None \<Rightarrow> [] | Some q \<Rightarrow> CHR ''?'' # q)
     @ (case uri_fragment u of None \<Rightarrow> [] | Some f \<Rightarrow> CHR ''#'' # f)"

text \<open>Modelled from the spec: \<^verbatim>\<open>new URL(input, base).href\<close>, the reference resolved
  against the base; a TypeError when the base has no scheme.\<close>

definition url_href :: "string \<Rightarrow> string \<Rightarrow> error + string" where
  "url_href input base =
     (let b = parse_uri base
      in if uri_scheme b = None then Inl TypeError
         else Inr (recompose (resolve_reference b (parse_uri input))))"

subsection \<open>The filename of a URL\<close>

text \<open>
  Modelled from the spec: \<^verbatim>\<open>getFilenameFromUrl\<close> of \<^verbatim>\<open>./shared\<close>, which \<^verbatim>\<open>src/\<close>
  does not hold.  The spec has it "derive a filename from the URL (last path segment,
  decoded)": the text after the last slash, its percent escapes replaced by the bytes
  they stand for.  A segment with a malformed escape is left as it is.
\<close>

definition hex_value :: "char \<Rightarrow> nat option" where
  "hex_value c = map_of (zip ''0123456789abcdef'' [0 ..< 16]) (lower_ascii c)"

fun percent_decode :: "string \<Rightarrow> string option" where
  "percent_decode [] = Some []"
| "percent_decode (c # cs) =
     (if c = CHR ''%'' then
        (case cs of
           h # l # rest \<Rightarrow>
             (case (hex_value h, hex_value l, percent_decode rest) of
                (Some a, Some b, Some ds) \<Rightarrow> Some (char_of (16 * a + b) # ds)
              | _ \<Rightarrow> None)
         | _ \<Rightarrow> None)
      else map_option ((#) c) (percent_decode cs))"

definition last_segment :: "string \<Rightarrow> string" where
  "last_segment url = rev (takeWhile (\<lambda>c. c \<noteq> CHR ''/'') (rev url))"

text \<open>Modelled from the spec: \<^verbatim>\<open>shared.getFilenameFromUrl(url)\<close>, the last path segment,
  decoded.\<close>

definition filename_from_url :: "string \<Rightarrow> string" where
  "filename_from_url url =
     (case percent_decode (last_segment url) of None \<Rightarrow> last_segment url | Some f \<Rightarrow> f)"

subsection \<open>The publication date\<close>

text \<open>
  Modelled from the spec: \<^verbatim>\<open>luxon.DateTime.fromRFC2822(s, {zone: 'utc'}).toISODate()\<close>,
  a library \<^verbatim>\<open>src/\<close> does not hold.  The spec has the date "parsed as an RFC-2822
  timestamp interpreted in UTC, normalized to an ISO calendar date (YYYY-MM-DD)".  The
  model reads the date-time of RFC 2822 (an optional day of the week, the day, the
  month name, a four-digit year, the time of day with optional seconds, and a zone:
  a numeric offset or one of the names of the RFC), moves it to UTC by its offset and
  prints the calendar date.  A string that is not such a timestamp, or names a day
  that does not exist or a day of the week that is not the day's, gives \<open>null\<close>.
\<close>

definition digit_value :: "char \<Rightarrow> int option" where
  "digit_value c = map_of (zip ''0123456789'' [0, 1, 2, 3, 4, 5, 6, 7, 8, 9]) c"

fun number_from :: "int \<Rightarrow> string \<Rightarrow> int option" where
  "number_from acc [] = Some acc"
| "number_from acc (c # cs) =
     (case digit_value c of None \<Rightarrow> None | Some d \<Rightarrow> number_from (10 * acc + d) cs)"

definition parse_digits :: "nat \<Rightarrow> nat \<Rightarrow> string \<Rightarrow> int option" where
  "parse_digits lo hi s =
     (if lo \<le> length s \<and> length s \<le> hi then number_from 0 s else None)"

definition month_number :: "string \<Rightarrow> int option" where
  "month_number m =
     map_of (zip [''Jan'', ''Feb'', ''Mar'', ''Apr'', ''May'', ''Jun'',
                  ''Jul'', ''Aug'', ''Sep'', ''Oct'', ''Nov'', ''Dec'']
                 [1, 2, 3, 4, 5, 6, 7, 8, 9, 10, 11, 12]) m"

text \<open>Monday is 0.\<close>

definition weekday_number :: "string \<Rightarrow> int option" where
  "weekday_number d =
     map_of (zip [''Mon,'', ''Tue,'', ''Wed,'', ''Thu,'', ''Fri,'', ''Sat,'', ''Sun,'']
                 [0, 1, 2, 3, 4, 5, 6]) d"

text \<open>The offset of a zone from UTC, in minutes.\<close>

definition zone_offset :: "string \<Rightarrow> int option" where
  "zone_offset z =
     (case z of
        sg # h1 # h2 # m1 # m2 # [] \<Rightarrow>
          (if sg = CHR ''+'' \<or> sg = CHR ''-'' then
             (case (parse_digits 2 2 [h1, h2], parse_digits 2 2 [m1, m2]) of
                (Some h, Some m) \<Rightarrow>
                  Some (if sg = CHR ''-'' then - (60 * h + m) else 60 * h + m)
              | _ \<Rightarrow> None)
           else None)
      | _ \<Rightarrow>
          map_of [(''UT'', 0), (''GMT'', 0), (''Z'', 0), (''z'', 0),
                  (''EST'', - 300), (''EDT'', - 240), (''CST'', - 360), (''CDT'', - 300),
                  (''MST'', - 420), (''MDT'', - 360), (''PST'', - 480), (''PDT'', - 420)] z)"

definition parse_time :: "string \<Rightarrow> (int \<times> int \<times> int) option" where
  "parse_time t =
     (case split_on CHR '':'' t of
        [h, m] \<Rightarrow>
          (case (parse_digits 2 2 h, parse_digits 2 2 m) of
             (Some hh, Some mm) \<Rightarrow> Some (hh, mm, 0)
           | _ \<Rightarrow> None)
      | [h, m, sc] \<Rightarrow>
          (case (parse_digits 2 2 h, parse_digits 2 2 m, parse_digits 2 2 sc) of
             (Some hh, Some mm, Some ss) \<Rightarrow> Some (hh, mm, ss)
           | _ \<Rightarrow> None)
      | _ \<Rightarrow> None)"

definition leap_year :: "int \<Rightarrow> bool" where
  "leap_year y = (y mod 4 = 0 \<and> (y mod 100 \<noteq> 0 \<or> y mod 400 = 0))"

definition days_in_month :: "int \<Rightarrow> int \<Rightarrow> int" where
  "days_in_month y m =
     (if m = 2 then (if leap_year y then 29 else 28)
      else if m = 4 \<or> m = 6 \<or> m = 9 \<or> m = 11 then 30 else 31)"

text \<open>The days from 1970-01-01 to a date of the Gregorian calendar, and back.\<close>

definition days_from_civil :: "int \<Rightarrow> int \<Rightarrow> int \<Rightarrow> int" where
  "days_from_civil y m d =
     (let y1 = (if m \<le> 2 then y - 1 else y);
          era = y1 div 400;
          yoe = y1 - era * 400;
          doy = (153 * (if m > 2 then m - 3 else m + 9) + 2) div 5 + d - 1;
          doe = yoe * 365 + yoe div 4 - yoe div 100 + doy
      in era * 146097 + doe - 719468)"

definition civil_from_days :: "int \<Rightarrow> int \<times> int \<times> int" where
  "civil_from_days z =
     (let z1 = z + 719468;
          era = z1 div 146097;
          doe = z1 - era * 146097;
          yoe = (doe - doe div 1460 + doe div 36524 - doe div 146096) div 365;
          doy = doe - (365 * yoe + yoe div 4 - yoe div 100);
          mp = (5 * doy + 2) div 153;
          d = doy - (153 * mp + 2) div 5 + 1;
          m = (if mp < 10 then mp + 3 else mp - 9)
      in (yoe + era * 400 + (if m \<le> 2 then 1 else 0), m, d))"

definition digit_char :: "int \<Rightarrow> char" where
  "digit_char n = ''0123456789'' ! nat (n mod 10)"

definition two_digits :: "int \<Rightarrow> string" where
  "two_digits n = [digit_char (n div 10), digit_char n]"

definition four_digits :: "int \<Rightarrow> string" where
  "four_digits n = two_digits (n div 100) @ two_digits n"

text \<open>A year outside 0000 to 9999 is printed in the expanded form of ISO 8601, a sign
  and six digits.\<close>

definition iso_date :: "int \<times> int \<times> int \<Rightarrow> string" where
  "iso_date ymd =
     (case ymd of (y, m, d) \<Rightarrow>
        (if 0 \<le> y \<and> y \<le> 9999 then four_digits y
         else (if y < 0 then ''-'' else ''+'') @ two_digits (\<bar>y\<bar> div 10000) @ four_digits \<bar>y\<bar>)
        @ ''-'' @ two_digits m @ ''-'' @ two_digits d)"

definition utc_date :: "int \<Rightarrow> int \<Rightarrow> int \<Rightarrow> int \<times> int \<times> int \<Rightarrow> int \<Rightarrow> jsval" where
  "utc_date y m d hms off =
     (case hms of (hh, mm, ss) \<Rightarrow>
        (if 1 \<le> d \<and> d \<le> days_in_month y m \<and> hh \<le> 23 \<and> mm \<le> 59 \<and> ss \<le> 59
         then Str (iso_date (civil_from_days
                 ((days_from_civil y m d * 1440 + hh * 60 + mm - off) div 1440)))
         else Null))"

definition date_fields :: "string list \<Rightarrow> (int \<times> int \<times> int \<times> (int \<times> int \<times> int) \<times> int) option" where
  "date_fields ws =
     (case ws of
        [d, m, y, t, z] \<Rightarrow>
          (case (parse_digits 1 2 d, month_number m, parse_digits 4 4 y, parse_time t,
                 zone_offset z) of
             (Some dd, Some mm, Some yy, Some hms, Some off) \<Rightarrow> Some (yy, mm, dd, hms, off)
           | _ \<Rightarrow> None)
      | _ \<Rightarrow> None)"

text \<open>Modelled from the spec: \<^verbatim>\<open>DateTime.fromRFC2822(s, {zone: 'utc'}).toISODate()\<close>, the
  calendar date in UTC of an RFC 2822 timestamp, or \<open>null\<close>.\<close>

definition rfc2822_iso_date :: "string \<Rightarrow> jsval" where
  "rfc2822_iso_date s =
     (let ws = filter (\<lambda>w. w \<noteq> []) (split_on CHR '' '' s);
          named = (ws \<noteq> [] \<and> weekday_number (hd ws) \<noteq> None)
      in case date_fields (if named then tl ws else ws) of
           None \<Rightarrow> Null
         | Some (y, m, d, hms, off) \<Rightarrow>
             (if named \<and> weekday_number (hd ws) \<noteq> Some ((days_from_civil y m d + 3) mod 7)
              then Null
              else utc_date y m d hms off))"

subsection \<open>The collaborators together\<close>

text \<open>The text conversion is a black box; in the sample environment it hands the
  first \<^verbatim>\<open>encoded\<close> field back as it is.\<close>

definition sample_env :: env where
  "sample_env =
     \<lparr> getPostContent = (\<lambda>p cfg. idx0 (encoded p)),
       getFilenameFromUrl = filename_from_url,
       fromRFC2822_toISODate = rfc2822_iso_date,
       URL_href = url_href \<rparr>"

section \<open>Sample data\<close>

definition empty_item :: raw_item where
  "empty_item =
     \<lparr> post_type = [], status = [], post_id = [], post_name = [], post_parent = [],
       pubDate = [], link = [], creator = [], title = [], description = [],
       comment_status = [], ping_status = [], is_sticky = [], category = [], tags = [],
       postmeta = [], attachment_url = [], encoded = [] \<rparr>"

text \<open>An item as WordPress exports a post filed under one category and one tag: two
  \<^verbatim>\<open>category\<close> elements, told apart by their \<^verbatim>\<open>domain\<close> attribute, and no element
  named \<^verbatim>\<open>tags\<close>.\<close>

definition tagged_item :: raw_item where
  "tagged_item =
     empty_item
       \<lparr> category :=
           [Element [(''domain'', ''category''), (''nicename'', ''travel'')] (Some ''Travel''),
            Element [(''domain'', ''post_tag''), (''nicename'', ''news'')] (Some ''News'')] \<rparr>"

text \<open>The double quote.\<close>

definition dq :: string where
  "dq = [CHR 0x22]"

text \<open>A published post with a featured image and one image in its body, the attachment
  that is its featured image, and a draft.\<close>

definition sample_post_body :: string where
  "sample_post_body = ''<img src='' @ dq @ ''photo.png'' @ dq @ ''>''"

definition sample_post :: raw_item where
  "sample_post =
     tagged_item
       \<lparr> post_type := [''post''], status := [''publish''], post_id := [''7''],
         post_name := [''hello-world''], post_parent := [''0''],
         pubDate := [''Wed, 01 Jan 2020 00:00:00 +0000''],
         link := [''https://example.com/post/''], creator := [''admin''],
         title := [''Hello world''], description := [[]], comment_status := [''open''],
         ping_status := [''open''], is_sticky := [''0''],
         postmeta := [\<lparr> meta_key = [''_edit_last''], meta_value = [''1''] \<rparr>,
                      \<lparr> meta_key = [''_thumbnail_id''], meta_value = [''42''] \<rparr>],
         encoded := [sample_post_body, []] \<rparr>"

definition sample_attachment :: raw_item where
  "sample_attachment =
     empty_item
       \<lparr> post_type := [''attachment''], status := [''inherit''], post_id := [''42''],
         post_name := [''cover''], post_parent := [''7''],
         pubDate := [''Wed, 01 Jan 2020 00:00:00 +0000''],
         link := [''https://example.com/post/cover/''], creator := [''admin''],
         title := [''cover''], description := [[]], comment_status := [''open''],
         ping_status := [''closed''], is_sticky := [''0''],
         attachment_url := [''https://example.com/wp-content/uploads/cover.jpg''],
         encoded := [[], []] \<rparr>"

definition sample_draft :: raw_item where
  "sample_draft =
     sample_post \<lparr> status := [''draft''], post_id := [''8''], post_name := [''later''],
                   postmeta := [] \<rparr>"

text \<open>A page whose body shows the attachment of the post once and another image twice.\<close>

definition sample_page_body :: string where
  "sample_page_body =
     ''<p><img class='' @ dq @ ''wide'' @ dq @ '' src='' @ dq
     @ ''/wp-content/uploads/cover.jpg'' @ dq @ ''> <IMG SRC='' @ dq @ ''team.jpeg'' @ dq
     @ '' alt='' @ dq @ dq @ ''> <img src='' @ dq @ ''team.jpeg'' @ dq @ ''></p>''"

definition sample_page :: raw_item where
  "sample_page =
     empty_item
       \<lparr> post_type := [''page''], status := [''publish''], post_id := [''9''],
         post_name := [''about''], post_parent := [''0''],
         pubDate := [''Wed, 01 Jan 2020 23:30:00 -0500''],
         link := [''https://example.com/about''], creator := [''admin''],
         title := [''About''], description := [[]], comment_status := [''closed''],
         ping_status := [''closed''], is_sticky := [''0''],
         encoded := [sample_page_body, []] \<rparr>"

definition sample_document :: document where
  "sample_document =
     \<lparr> rss = Some \<lparr> channel =
         [\<lparr> item = [sample_post, sample_attachment, sample_draft, sample_page] \<rparr>] \<rparr> \<rparr>"

definition sample_config :: config where
  "sample_config =
     \<lparr> postTypes = ''post,page'', saveAttachedImages = True, saveScrapedImages = True \<rparr>"

text \<open>What the pipeline makes of the sample document (lemmas \<open>sample_posts\<close>,
  \<open>sample_images\<close> and \<open>sample_result\<close>): the records of the post and of the page as
  collected, the image references, and the records after the merge.\<close>

definition post_record :: post where
  "post_record =
     \<lparr> meta = \<lparr> meta_id = ''7'', meta_slug = ''hello-world'', meta_coverImageId = Str ''42'',
                meta_imageUrls = [], meta_type = ''post'' \<rparr>,
       frontmatter = \<lparr> fm_title = ''Hello world'', fm_date = Str ''2020-01-01'',
                fm_slug = ''hello-world'', fm_link = ''https://example.com/post/'',
                fm_creator = ''admin'', fm_description = [], fm_commentStatus = ''open'',
                fm_pingStatus = ''open'', fm_isSticky = ''0'',
                fm_categories = [Str ''Travel''], fm_tags = [],
                fm_coverImage = Undefined \<rparr>,
       content = sample_post_body \<rparr>"

definition page_record :: post where
  "page_record =
     \<lparr> meta = \<lparr> meta_id = ''9'', meta_slug = ''about'', meta_coverImageId = Undefined,
                meta_imageUrls = [], meta_type = ''page'' \<rparr>,
       frontmatter = \<lparr> fm_title = ''About'', fm_date = Str ''2020-01-02'',
                fm_slug = ''about'', fm_link = ''https://example.com/about'',
                fm_creator = ''admin'', fm_description = [], fm_commentStatus = ''closed'',
                fm_pingStatus = ''closed'', fm_isSticky = ''0'',
                fm_categories = [], fm_tags = [], fm_coverImage = Undefined \<rparr>,
       content = sample_page_body \<rparr>"

definition sample_posts :: "post list" where
  "sample_posts = [post_record, page_record]"

definition sample_attached :: "image list" where
  "sample_attached =
     [\<lparr> img_id = Str ''42'', img_postId = ''7'',
        img_url = ''https://example.com/wp-content/uploads/cover.jpg'' \<rparr>]"

definition sample_scraped :: "image list" where
  "sample_scraped =
     [\<lparr> img_id = Num (- 1), img_postId = ''7'',
        img_url = ''https://example.com/post/photo.png'' \<rparr>,
      \<lparr> img_id = Num (- 1), img_postId = ''8'',
        img_url = ''https://example.com/post/photo.png'' \<rparr>,
      \<lparr> img_id = Num (- 1), img_postId = ''9'',
        img_url = ''https://example.com/wp-content/uploads/cover.jpg'' \<rparr>,
      \<lparr> img_id = Num (- 1), img_postId = ''9'',
        img_url = ''https://example.com/team.jpeg'' \<rparr>,
      \<lparr> img_id = Num (- 1), img_postId = ''9'',
        img_url = ''https://example.com/team.jpeg'' \<rparr>]"

definition sample_result :: "post list" where
  "sample_result =
     [post_record
        \<lparr> meta := (meta post_record)
            \<lparr> meta_imageUrls := [''https://example.com/wp-content/uploads/cover.jpg'',
                                  ''https://example.com/post/photo.png''] \<rparr>,
          frontmatter := (frontmatter post_record) \<lparr> fm_coverImage := Str ''cover.jpg'' \<rparr> \<rparr>,
      page_record
        \<lparr> meta := (meta page_record)
            \<lparr> meta_imageUrls := [''https://example.com/wp-content/uploads/cover.jpg'',
                                  ''https://example.com/team.jpeg''] \<rparr> \<rparr>]"

text \<open>Two post records that agree on every field but \<^verbatim>\<open>meta.imageUrls\<close> and
  \<^verbatim>\<open>frontmatter.coverImage\<close>.\<close>

definition unchanged_fields :: "post \<Rightarrow> post \<Rightarrow> bool" where
  "unchanged_fields p q =
     (meta_id (meta q) = meta_id (meta p)
      \<and> meta_slug (meta q) = meta_slug (meta p)
      \<and> meta_coverImageId (meta q) = meta_coverImageId (meta p)
      \<and> meta_type (meta q) = meta_type (meta p)
      \<and> fm_title (frontmatter q) = fm_title (frontmatter p)
      \<and> fm_date (frontmatter q) = fm_date (frontmatter p)
      \<and> fm_slug (frontmatter q) = fm_slug (frontmatter p)
      \<and> fm_link (frontmatter q) = fm_link (frontmatter p)
      \<and> fm_creator (frontmatter q) = fm_creator (frontmatter p)
      \<and> fm_description (frontmatter q) = fm_description (frontmatter p)
      \<and> fm_commentStatus (frontmatter q) = fm_commentStatus (frontmatter p)
      \<and> fm_pingStatus (frontmatter q) = fm_pingStatus (frontmatter p)
      \<and> fm_isSticky (frontmatter q) = fm_isSticky (frontmatter p)
      \<and> fm_categories (frontmatter q) = fm_categories (frontmatter p)
      \<and> fm_tags (frontmatter q) = fm_tags (frontmatter p)
      \<and> content q = content p)"

text \<open>Two references with the id of the cover image of the sample post, and one
  between them without.\<close>

definition two_covers :: "image list" where
  "two_covers =
     [\<lparr> img_id = Str ''42'', img_postId = ''7'', img_url = ''https://example.com/a/first.jpg'' \<rparr>,
      \<lparr> img_id = Num (- 1), img_postId = ''7'', img_url = ''https://example.com/a/other.png'' \<rparr>,
      \<lparr> img_id = Str ''42'', img_postId = ''7'', img_url = ''https://example.com/a/second.jpg'' \<rparr>]"

text \<open>An image attachment whose \<^verbatim>\<open>post_parent\<close> is not the id of any post, in a document
  with the sample post.\<close>

definition orphan_attachment :: raw_item where
  "orphan_attachment =
     sample_attachment
       \<lparr> post_id := [''43''], post_name := [''logo''], post_parent := [''constructor''],
         attachment_url := [''https://example.com/wp-content/uploads/logo.png''] \<rparr>"

definition orphan_document :: document where
  "orphan_document =
     \<lparr> rss = Some \<lparr> channel = [\<lparr> item = [sample_post, orphan_attachment] \<rparr>] \<rparr> \<rparr>"

definition orphan_image :: image where
  "orphan_image =
     \<lparr> img_id = Str ''43'', img_postId = ''constructor'',
       img_url = ''https://example.com/wp-content/uploads/logo.png'' \<rparr>"

text \<open>A document with the sample post alone, and the image reference scraped from it.\<close>

definition single_post_document :: document where
  "single_post_document = \<lparr> rss = Some \<lparr> channel = [\<lparr> item = [sample_post] \<rparr>] \<rparr> \<rparr>"

definition photo_ref :: image where
  "photo_ref =
     \<lparr> img_id = Num (- 1), img_postId = ''7'', img_url = ''https://example.com/post/photo.png'' \<rparr>"

text \<open>The items post collection keeps: the type is one of the configured types and the
  status is neither \<^verbatim>\<open>trash\<close> nor \<^verbatim>\<open>draft\<close>.\<close>

definition selected :: "config \<Rightarrow> raw_item \<Rightarrow> bool" where
  "selected cfg it =
     (case post_type it of
        [] \<Rightarrow> False
      | t # _ \<Rightarrow>
          t \<in> set (split_on CHR '','' (postTypes cfg))
          \<and> (case status it of [] \<Rightarrow> False | s # _ \<Rightarrow> s \<noteq> ''trash'' \<and> s \<noteq> ''draft''))"

text \<open>The elements of a list in the order of their first occurrence.\<close>

primrec first_occurrences :: "'a list \<Rightarrow> 'a list" where
  "first_occurrences [] = []"
| "first_occurrences (x # xs) = x # filter (\<lambda>y. y \<noteq> x) (first_occurrences xs)"

text \<open>The image references the lookup table resolves to the post at index \<open>i\<close>.\<close>

definition images_of :: "post list \<Rightarrow> nat \<Rightarrow> image list \<Rightarrow> image list" where
  "images_of posts i images =
     filter (\<lambda>im. get_prop posts (postsLookup posts) (img_postId im) = PostRef i) images"

text \<open>What the body of the \<^verbatim>\<open>forEach\<close> does to the post it found.\<close>

definition apply_image :: "env \<Rightarrow> image \<Rightarrow> post \<Rightarrow> post" where
  "apply_image E im p =
     (let p1 = (if img_id im = meta_coverImageId (meta p)
                then p\<lparr> frontmatter := (frontmatter p)
                         \<lparr> fm_coverImage := Str (getFilenameFromUrl E (img_url im)) \<rparr> \<rparr>
                else p)
      in if img_url im \<in> set (meta_imageUrls (meta p1)) then p1
         else p1\<lparr> meta := (meta p1)
                  \<lparr> meta_imageUrls := meta_imageUrls (meta p1) @ [img_url im] \<rparr> \<rparr>)"

text \<open>The guarded \<^verbatim>\<open>push\<close>, over a list of URLs.\<close>

fun append_new :: "'a list \<Rightarrow> 'a list \<Rightarrow> 'a list" where
  "append_new acc [] = acc"
| "append_new acc (x # xs) = append_new (if x \<in> set acc then acc else acc @ [x]) xs"

section \<open>Exceptions as values: basic facts\<close>

lemma bindE_Inr_iff: "bindE m f = Inr y \<longleftrightarrow> (\<exists>x. m = Inr x \<and> f x = Inr y)"
  by (cases m) (simp_all add: bindE_def)

lemma bindE_Inr [simp]: "bindE (Inr x) f = f x"
  by (simp add: bindE_def)

lemma bindE_Inl [simp]: "bindE (Inl e) f = Inl e"
  by (simp add: bindE_def)

lemma idx0_Cons [simp]: "idx0 (x # xs) = Inr x"
  by (simp add: idx0_def)

lemma idx0_Nil [simp]: "idx0 [] = Inl TypeError"
  by (simp add: idx0_def)

lemma idx0_Inr_iff: "idx0 xs = Inr x \<longleftrightarrow> (\<exists>ys. xs = x # ys)"
  by (cases xs) simp_all

lemma filterE_filter: "filterE f xs = Inr ys \<Longrightarrow> ys = filter (\<lambda>x. f x = Inr True) xs"
proof (induction xs arbitrary: ys)
  case Nil
  then show ?case by simp
next
  case (Cons x xs)
  from Cons.prems obtain b zs where b: "f x = Inr b" and zs: "filterE f xs = Inr zs"
    and ys: "ys = (if b then x # zs else zs)"
    by (auto simp: bindE_Inr_iff)
  from Cons.IH [OF zs] b ys show ?case by auto
qed

lemma filterE_defined: "filterE f xs = Inr ys \<Longrightarrow> x \<in> set xs \<Longrightarrow> \<exists>b. f x = Inr b"
  by (induction xs arbitrary: ys) (auto simp: bindE_Inr_iff)

lemma mapE_list_all2: "mapE f xs = Inr ys \<Longrightarrow> list_all2 (\<lambda>x y. f x = Inr y) xs ys"
  by (induction xs arbitrary: ys) (auto simp: bindE_Inr_iff)

section \<open>A match is never empty\<close>

lemma match_ci_length: "match_ci p s = Some r \<Longrightarrow> length s = length p + length r"
  by (induction p s rule: match_ci.induct) (auto split: if_splits)

lemma close_tag_shorter: "close_tag s = Some r \<Longrightarrow> length r < length s"
proof -
  assume "close_tag s = Some r"
  then obtain c where "dropWhile (\<lambda>c. c \<noteq> CHR ''>'') s = c # r"
    by (auto simp: close_tag_def split: list.splits)
  moreover have "length (dropWhile (\<lambda>c. c \<noteq> CHR ''>'') s) \<le> length s"
    by (rule length_dropWhile_le)
  ultimately show ?thesis by simp
qed

lemma try_exts_shorter: "try_exts es s = Some (e, rest) \<Longrightarrow> length rest < length s"
proof (induction es)
  case Nil
  then show ?case by simp
next
  case (Cons x es)
  show ?case
  proof (cases "try_exts es s = Some (e, rest)")
    case True
    then show ?thesis by (rule Cons.IH)
  next
    case False
    with Cons.prems obtain r r2 where "match_ci x s = Some r"
      and "match_ci [CHR 0x22] r = Some r2" and "close_tag r2 = Some rest"
      by (auto split: option.splits)
    with match_ci_length [of x s r] match_ci_length [of "[CHR 0x22]" r r2]
      close_tag_shorter [of r2 rest]
    show ?thesis by simp
  qed
qed

lemma capture_shorter: "capture acc s = Some (m, rest) \<Longrightarrow> length rest < length s"
proof (induction s arbitrary: acc)
  case Nil
  then show ?case by simp
next
  case (Cons c cs)
  show ?case
  proof (cases "try_exts [''.gif'', ''.jpeg'', ''.jpg'', ''.png''] cs")
    case None
    with Cons.prems have "capture (c # acc) cs = Some (m, rest)"
      by (simp split: if_splits)
    from Cons.IH [OF this] show ?thesis by simp
  next
    case (Some found)
    with Cons.prems obtain e where "found = (e, rest)"
      by (cases found) (simp split: if_splits)
    with Some have "try_exts [''.gif'', ''.jpeg'', ''.jpg'', ''.png''] cs = Some (e, rest)"
      by (simp only:)
    from try_exts_shorter [OF this] show ?thesis by simp
  qed
qed

lemma src_attr_shorter: "src_attr s = Some (m, rest) \<Longrightarrow> length rest < length s"
proof -
  assume "src_attr s = Some (m, rest)"
  then obtain r where "match_ci (''src='' @ [CHR 0x22]) s = Some r"
    and "capture [] r = Some (m, rest)"
    by (auto simp: src_attr_def split: option.splits)
  with match_ci_length [of _ s r] capture_shorter [of "[]" r m rest] show ?thesis
    by simp
qed

lemma after_img_shorter: "after_img s = Some (m, rest) \<Longrightarrow> length rest < length s"
proof (induction s)
  case Nil
  with src_attr_shorter [of "[]" m rest] show ?case by simp
next
  case (Cons c cs)
  show ?case
  proof (cases "src_attr (c # cs) = Some (m, rest)")
    case True
    then show ?thesis by (rule src_attr_shorter)
  next
    case False
    with Cons.prems have "after_img cs = Some (m, rest)"
      by (auto split: if_splits option.splits)
    from Cons.IH [OF this] show ?thesis by simp
  qed
qed

lemma match_at_shorter: "match_at s = Some (m, rest) \<Longrightarrow> length rest < length s"
proof -
  assume "match_at s = Some (m, rest)"
  then obtain r where "match_ci ''<img'' s = Some r" and "after_img r = Some (m, rest)"
    by (auto simp: match_at_def split: option.splits)
  with match_ci_length [of _ s r] after_img_shorter [of r m rest] show ?thesis
    by simp
qed

text \<open>So the search always goes on after a match.\<close>

lemma img_srcs_Cons:
  "img_srcs (c # cs) =
     (case match_at (c # cs) of None \<Rightarrow> img_srcs cs | Some (m, rest) \<Rightarrow> m # img_srcs rest)"
proof (cases "match_at (c # cs)")
  case None
  then show ?thesis by simp
next
  case (Some found)
  obtain m rest where "found = (m, rest)"
    by (cases found)
  with Some match_at_shorter [of "c # cs" m rest] show ?thesis
    by simp
qed

section \<open>Tags and categories\<close>

text \<open>
  Claim C2.  The tags of an item should be the text of all its category entries whose
  \<^verbatim>\<open>domain\<close> attribute is \<^verbatim>\<open>post_tag\<close>.  The guard of \<^verbatim>\<open>getTags\<close> looks at the key
  \<^verbatim>\<open>tags\<close> where \<^verbatim>\<open>getCategories\<close> looks at \<^verbatim>\<open>category\<close>: for an item with a
  \<^verbatim>\<open>post_tag\<close> entry and no \<^verbatim>\<open>tags\<close> element the code returns the empty list, while
  the entries of that domain, read the way \<^verbatim>\<open>getCategories\<close> reads its own, are not
  empty.
\<close>

theorem getTags_ignores_post_tag_entries:
  "getTags tagged_item = Inr []
   \<and> domain_entries ''post_tag'' (category tagged_item) = Inr [Str ''News'']
   \<and> getCategories tagged_item = Inr [Str ''Travel'']"
  by (simp add: getTags_def getCategories_def domain_entries_def tagged_item_def
      empty_item_def node_domain_def node_text_def)

section \<open>The merge, post by post\<close>

lemma set_first_occurrences [simp]: "set (first_occurrences xs) = set xs"
  by (induction xs) auto

lemma distinct_first_occurrences [simp]: "distinct (first_occurrences xs)"
  by (induction xs) auto

lemma append_new_first_occurrences:
  "append_new acc xs = acc @ filter (\<lambda>x. x \<notin> set acc) (first_occurrences xs)"
proof (induction xs arbitrary: acc)
  case Nil
  then show ?case by simp
next
  case (Cons x xs)
  show ?case
  proof (cases "x \<in> set acc")
    case True
    then have "filter (\<lambda>y. y \<notin> set acc) (filter (\<lambda>y. y \<noteq> x) (first_occurrences xs))
      = filter (\<lambda>y. y \<notin> set acc) (first_occurrences xs)"
      by (auto intro: filter_cong)
    with True Cons.IH [of acc] show ?thesis by simp
  next
    case False
    have "filter (\<lambda>y. y \<notin> set (acc @ [x])) (first_occurrences xs)
      = filter (\<lambda>y. y \<notin> set acc) (filter (\<lambda>y. y \<noteq> x) (first_occurrences xs))"
      by (auto intro: filter_cong)
    with False Cons.IH [of "acc @ [x]"] show ?thesis by simp
  qed
qed

lemma merge_image_PostRef:
  "get_prop posts L (img_postId im) = PostRef i \<Longrightarrow>
     merge_image E L im posts = (posts[i := apply_image E im (posts ! i)], None)"
  by (simp add: merge_image_def apply_image_def Let_def)

lemma merge_image_Falsy:
  "get_prop posts L (img_postId im) = Falsy \<Longrightarrow> merge_image E L im posts = (posts, None)"
  by (simp add: merge_image_def)

lemma merge_image_OtherValue:
  "get_prop posts L (img_postId im) = OtherValue \<Longrightarrow>
     merge_image E L im posts = (posts, Some TypeError)"
  by (simp add: merge_image_def)

lemma content_apply_image [simp]: "content (apply_image E im p) = content p"
  by (simp add: apply_image_def Let_def)

lemma coverImageId_apply_image [simp]:
  "meta_coverImageId (meta (apply_image E im p)) = meta_coverImageId (meta p)"
  by (simp add: apply_image_def Let_def)

lemma get_prop_content:
  assumes "length posts' = length posts"
    and "\<And>j. j < length posts \<Longrightarrow> content (posts' ! j) = content (posts ! j)"
  shows "get_prop posts' L k = get_prop posts L k"
proof -
  have "\<And>j. (j < length posts' \<and> content (posts' ! j) \<noteq> [])
      = (j < length posts \<and> content (posts ! j) \<noteq> [])"
    using assms by auto
  then show ?thesis
    unfolding get_prop_def by (simp cong: if_cong option.case_cong)
qed

lemma merge_image_length: "length (fst (merge_image E L im posts)) = length posts"
  by (cases "get_prop posts L (img_postId im)")
    (simp_all add: merge_image_PostRef merge_image_Falsy merge_image_OtherValue)

lemma merge_image_content:
  assumes "j < length posts"
  shows "content (fst (merge_image E L im posts) ! j) = content (posts ! j)"
proof (cases "get_prop posts L (img_postId im)")
  case (PostRef i)
  with assms show ?thesis
    by (cases "i = j") (simp_all add: merge_image_PostRef)
qed (simp_all add: merge_image_Falsy merge_image_OtherValue)

lemma merge_image_get_prop:
  "get_prop (fst (merge_image E L im posts)) L k = get_prop posts L k"
  by (rule get_prop_content) (simp_all add: merge_image_length merge_image_content)

lemma merge_image_nth:
  assumes "merge_image E L im posts = (posts', None)" and "i < length posts"
  shows "posts' ! i =
     (if get_prop posts L (img_postId im) = PostRef i then apply_image E im (posts ! i)
      else posts ! i)"
  using assms
  by (cases "get_prop posts L (img_postId im)")
    (auto simp: merge_image_PostRef merge_image_Falsy merge_image_OtherValue)

lemma merge_loop_nth:
  assumes "merge_loop E L ims posts = (posts', None)" and "i < length posts"
  shows "posts' ! i =
     fold (apply_image E) (filter (\<lambda>im. get_prop posts L (img_postId im) = PostRef i) ims)
       (posts ! i)"
  using assms
proof (induction ims arbitrary: posts)
  case Nil
  then show ?case by simp
next
  case (Cons im ims)
  obtain posts1 err where step: "merge_image E L im posts = (posts1, err)"
    by (cases "merge_image E L im posts")
  with Cons.prems(1) have err: "err = None" and rest: "merge_loop E L ims posts1 = (posts', None)"
    by (cases err; simp)+
  from step have len: "length posts1 = length posts"
    using merge_image_length [of E L im posts] by simp
  from step have same: "\<And>k. get_prop posts1 L k = get_prop posts L k"
    using merge_image_get_prop [of E L im posts] by simp
  from Cons.IH [OF rest] Cons.prems(2) len
  have "posts' ! i =
     fold (apply_image E) (filter (\<lambda>im. get_prop posts L (img_postId im) = PostRef i) ims)
       (posts1 ! i)"
    by (simp add: same)
  with merge_image_nth [OF step [unfolded err] Cons.prems(2)] show ?case by simp
qed

lemma merge_loop_length: "length (fst (merge_loop E L ims posts)) = length posts"
proof (induction ims arbitrary: posts)
  case Nil
  then show ?case by simp
next
  case (Cons im ims)
  obtain posts1 err where step: "merge_image E L im posts = (posts1, err)"
    by (cases "merge_image E L im posts")
  with merge_image_length [of E L im posts] have "length posts1 = length posts" by simp
  with Cons.IH [of posts1] step show ?case by (cases err) simp_all
qed

lemma imageUrls_fold_apply_image:
  "meta_imageUrls (meta (fold (apply_image E) ims p)) =
     append_new (meta_imageUrls (meta p)) (map img_url ims)"
  by (induction ims arbitrary: p) (simp_all add: apply_image_def Let_def)

lemma coverImageId_fold_apply_image [simp]:
  "meta_coverImageId (meta (fold (apply_image E) ims p)) = meta_coverImageId (meta p)"
  by (induction ims arbitrary: p) simp_all

lemma coverImage_apply_image:
  "fm_coverImage (frontmatter (apply_image E im p)) =
     (if img_id im = meta_coverImageId (meta p) then Str (getFilenameFromUrl E (img_url im))
      else fm_coverImage (frontmatter p))"
  by (simp add: apply_image_def Let_def)

lemma coverImage_fold_apply_image:
  "fm_coverImage (frontmatter (fold (apply_image E) ims p)) =
     (if filter (\<lambda>im. img_id im = meta_coverImageId (meta p)) ims = []
      then fm_coverImage (frontmatter p)
      else Str (getFilenameFromUrl E
             (img_url (last (filter (\<lambda>im. img_id im = meta_coverImageId (meta p)) ims)))))"
proof (induction ims rule: rev_induct)
  case Nil
  then show ?case by simp
next
  case (snoc im ims)
  show ?case
    by (simp add: coverImage_apply_image snoc.IH)
qed

section \<open>The sample document, evaluated\<close>

lemma split_sample_types: "split_on CHR '','' ''post,page'' = [''post'', ''page'']"
  by simp

lemma sample_post_srcs: "img_srcs sample_post_body = [''photo.png'']"
  by code_simp

lemma sample_page_srcs:
  "img_srcs sample_page_body = [''/wp-content/uploads/cover.jpg'', ''team.jpeg'', ''team.jpeg'']"
  by code_simp

lemma href_photo:
  "url_href ''photo.png'' ''https://example.com/post/'' = Inr ''https://example.com/post/photo.png''"
  by code_simp

lemma href_cover:
  "url_href ''/wp-content/uploads/cover.jpg'' ''https://example.com/about''
     = Inr ''https://example.com/wp-content/uploads/cover.jpg''"
  by code_simp

lemma href_team:
  "url_href ''team.jpeg'' ''https://example.com/about'' = Inr ''https://example.com/team.jpeg''"
  by code_simp

lemma date_utc: "rfc2822_iso_date ''Wed, 01 Jan 2020 00:00:00 +0000'' = Str ''2020-01-01''"
  by code_simp

lemma date_west: "rfc2822_iso_date ''Wed, 01 Jan 2020 23:30:00 -0500'' = Str ''2020-01-02''"
  by code_simp

lemma cover_ext: "has_image_ext ''https://example.com/wp-content/uploads/cover.jpg''"
  by code_simp

lemma cover_name:
  "filename_from_url ''https://example.com/wp-content/uploads/cover.jpg'' = ''cover.jpg''"
  by code_simp

lemma sample_items:
  "channel_items sample_document = Inr [sample_post, sample_attachment, sample_draft, sample_page]"
  by (simp add: channel_items_def sample_document_def)

lemmas sample_item_defs =
  sample_post_def sample_attachment_def sample_draft_def sample_page_def tagged_item_def
  empty_item_def

lemma sample_scraped:
  "collectScrapedImages sample_env sample_document sample_config = Inr sample_scraped"
  by (simp add: collectScrapedImages_def scrape_post_def scraped_image_def getItemsOfTypes_def
      sample_items sample_config_def
      split_sample_types sample_item_defs sample_env_def sample_post_srcs sample_page_srcs
      href_photo href_cover href_team sample_scraped_def)

lemma sample_attached: "collectAttachedImages sample_document = Inr sample_attached"
  by (simp add: collectAttachedImages_def getItemsOfTypes_def sample_items sample_item_defs
      cover_ext sample_attached_def)

lemma sample_images:
  "collectImages sample_env sample_document sample_config = Inr (sample_attached @ sample_scraped)"
  by (simp add: collectImages_def sample_attached sample_scraped) (simp add: sample_config_def)

lemma build_post_record: "build_post sample_env sample_config sample_post = Inr post_record"
  by (simp add: build_post_def getPostId_def getPostSlug_def getPostCoverImageId_def
      getPostType_def getPostTitle_def getPostDate_def getLink_def getCreator_def
      getDescription_def getCommentStatus_def getPingStatus_def isSticky_def getCategories_def
      getTags_def domain_entries_def node_domain_def node_text_def sample_post_def
      tagged_item_def empty_item_def sample_env_def date_utc post_record_def)

lemma build_page_record: "build_post sample_env sample_config sample_page = Inr page_record"
  by (simp add: build_post_def getPostId_def getPostSlug_def getPostCoverImageId_def
      getPostType_def getPostTitle_def getPostDate_def getLink_def getCreator_def
      getDescription_def getCommentStatus_def getPingStatus_def isSticky_def getCategories_def
      getTags_def sample_page_def empty_item_def sample_env_def date_west page_record_def)

lemma sample_selected:
  "filter (selected sample_config) [sample_post, sample_attachment, sample_draft, sample_page]
     = [sample_post, sample_page]"
  by (simp add: selected_def sample_config_def split_sample_types sample_item_defs)

lemma sample_posts: "collectPosts sample_env sample_document sample_config = Inr sample_posts"
proof -
  have "getItemsOfTypes sample_document [''post'', ''page'']
          = Inr [sample_post, sample_draft, sample_page]"
    by (simp add: getItemsOfTypes_def sample_items) (simp add: sample_item_defs)
  moreover have "filterE (\<lambda>p. bindE (idx0 (status p))
            (\<lambda>s. Inr (s \<noteq> ''trash'' \<and> s \<noteq> ''draft''))) [sample_post, sample_draft, sample_page]
          = Inr [sample_post, sample_page]"
    by (simp add: sample_item_defs)
  ultimately show ?thesis
    by (simp add: collectPosts_def sample_config_def split_sample_types build_post_record
        build_page_record [unfolded sample_config_def] sample_posts_def
        build_post_record [unfolded sample_config_def])
qed

lemma sample_lookup:
  "postsLookup sample_posts = \<lparr> own = [''7'' \<mapsto> 0, ''9'' \<mapsto> 1], proto = None \<rparr>"
  by (simp add: postsLookup_def sample_posts_def post_record_def page_record_def set_prop_def
      empty_lookup_def)

lemma merge_image_cases:
  "merge_image E L im posts =
     (case get_prop posts L (img_postId im) of
        PostRef i \<Rightarrow> (posts[i := apply_image E im (posts ! i)], None)
      | OtherValue \<Rightarrow> (posts, Some TypeError)
      | Falsy \<Rightarrow> (posts, None))"
  by (simp add: merge_image_def apply_image_def Let_def split: property.splits)

lemma sample_owner:
  "get_prop ps (postsLookup sample_posts) ''7'' = PostRef 0"
  "get_prop ps (postsLookup sample_posts) ''8'' = Falsy"
  "get_prop ps (postsLookup sample_posts) ''9'' = PostRef 1"
  by (simp_all add: sample_lookup get_prop_def inherited_def object_prototype_names_def)

lemma sample_merge:
  "mergeImagesIntoPosts sample_env (sample_attached @ sample_scraped) sample_posts
     = (sample_result, None)"
proof -
  have "merge_loop sample_env (postsLookup sample_posts) (sample_attached @ sample_scraped)
          [post_record, page_record] = (sample_result, None)"
    unfolding sample_attached_def sample_scraped_def
    by (simp add: merge_image_cases sample_owner)
      (simp add: apply_image_def post_record_def page_record_def sample_result_def
        sample_env_def cover_name)
  then show ?thesis
    by (simp add: mergeImagesIntoPosts_def sample_posts_def)
qed

lemma sample_result: "parseFilePromise sample_env sample_document sample_config = Inr sample_result"
  by (simp add: parseFilePromise_def sample_posts sample_images sample_merge)

section \<open>Post collection\<close>

lemma collectPosts_kept:
  assumes "collectPosts E data cfg = Inr posts"
  shows "\<exists>items. channel_items data = Inr items
           \<and> list_all2 (\<lambda>it p. build_post E cfg it = Inr p) (filter (selected cfg) items) posts"
proof -
  let ?types = "split_on CHR '','' (postTypes cfg)"
  let ?f = "\<lambda>it. bindE (idx0 (post_type it)) (\<lambda>t. Inr (t \<in> set ?types))"
  let ?g = "\<lambda>p. bindE (idx0 (status p)) (\<lambda>s. Inr (s \<noteq> ''trash'' \<and> s \<noteq> ''draft''))"
  from assms obtain items typed kept where
    items: "channel_items data = Inr items" and
    typed: "filterE ?f items = Inr typed" and
    kept: "filterE ?g typed = Inr kept" and
    posts: "mapE (build_post E cfg) kept = Inr posts"
    unfolding collectPosts_def getItemsOfTypes_def by (auto simp: bindE_Inr_iff)
  have "kept = filter (\<lambda>x. ?g x = Inr True) (filter (\<lambda>x. ?f x = Inr True) items)"
    using filterE_filter [OF typed] filterE_filter [OF kept] by simp
  also have "\<dots> = filter (\<lambda>x. ?f x = Inr True \<and> ?g x = Inr True) items"
    by (simp add: conj_commute)
  also have "\<dots> = filter (selected cfg) items"
  proof (rule filter_cong [OF refl])
    fix x
    show "(?f x = Inr True \<and> ?g x = Inr True) = selected cfg x"
      by (cases "post_type x"; cases "status x") (simp_all add: selected_def)
  qed
  finally have kept_eq: "kept = filter (selected cfg) items" .
  from mapE_list_all2 [OF posts] kept_eq
  have rel: "list_all2 (\<lambda>it p. build_post E cfg it = Inr p) (filter (selected cfg) items) posts"
    by simp
  with items show ?thesis by blast
qed

text \<open>
  Claim C1.  When post collection returns, its records are, in the order of the
  document, the records built from exactly the items whose \<^verbatim>\<open>post_type\<close> is one of the
  configured types and whose status is neither \<^verbatim>\<open>trash\<close> nor \<^verbatim>\<open>draft\<close>: one record
  for each such item, and none for any other.
\<close>

theorem collectPosts_selected_items:
  assumes "collectPosts E data cfg = Inr posts"
  shows "\<exists>items. channel_items data = Inr items
           \<and> length posts = length (filter (selected cfg) items)
           \<and> list_all2 (\<lambda>it p. build_post E cfg it = Inr p) (filter (selected cfg) items) posts"
proof -
  from collectPosts_kept [OF assms] obtain items where
    items: "channel_items data = Inr items" and
    rel: "list_all2 (\<lambda>it p. build_post E cfg it = Inr p) (filter (selected cfg) items) posts"
    by blast
  from rel have "length posts = length (filter (selected cfg) items)"
    by (simp add: list_all2_lengthD)
  with items rel show ?thesis by blast
qed

theorem collectPosts_selected_items_witness:
  "collectPosts sample_env sample_document sample_config = Inr sample_posts
   \<and> length sample_posts = length [sample_post, sample_page]
   \<and> list_all2 (\<lambda>it p. build_post sample_env sample_config it = Inr p)
        [sample_post, sample_page] sample_posts"
proof -
  from collectPosts_selected_items [OF sample_posts] obtain items where
    items: "channel_items sample_document = Inr items" and
    len: "length sample_posts = length (filter (selected sample_config) items)" and
    rel: "list_all2 (\<lambda>it p. build_post sample_env sample_config it = Inr p)
       (filter (selected sample_config) items) sample_posts"
    by blast
  from items have eq: "items = [sample_post, sample_attachment, sample_draft, sample_page]"
    by (simp add: sample_items)
  from len rel show ?thesis
    unfolding eq sample_selected using sample_posts by simp
qed

section \<open>The frame of the merge\<close>

lemma unchanged_fields_refl [simp]: "unchanged_fields p p"
  by (simp add: unchanged_fields_def)

lemma unchanged_fields_trans:
  "unchanged_fields p q \<Longrightarrow> unchanged_fields q r \<Longrightarrow> unchanged_fields p r"
  by (simp add: unchanged_fields_def)

lemma unchanged_fields_apply_image [simp]: "unchanged_fields p (apply_image E im p)"
  by (simp add: unchanged_fields_def apply_image_def Let_def)

lemma unchanged_fields_update:
  assumes "i < length posts \<Longrightarrow> unchanged_fields (posts ! i) q"
  shows "list_all2 unchanged_fields posts (posts[i := q])"
proof (rule list_all2_all_nthI)
  show "length posts = length (posts[i := q])" by simp
next
  fix n
  assume "n < length posts"
  with assms show "unchanged_fields (posts ! n) (posts[i := q] ! n)"
    by (cases "i = n") simp_all
qed

lemma merge_image_frame: "list_all2 unchanged_fields posts (fst (merge_image E L im posts))"
  by (cases "get_prop posts L (img_postId im)")
    (simp_all add: merge_image_cases unchanged_fields_update list_all2_refl)

lemma merge_loop_frame: "list_all2 unchanged_fields posts (fst (merge_loop E L ims posts))"
proof (induction ims arbitrary: posts)
  case Nil
  show ?case by (simp add: list_all2_refl)
next
  case (Cons im ims)
  obtain posts1 err where step: "merge_image E L im posts = (posts1, err)"
    by (cases "merge_image E L im posts")
  from merge_image_frame [of posts E L im] step
  have first: "list_all2 unchanged_fields posts posts1" by simp
  show ?case
  proof (cases err)
    case None
    from list_all2_trans [OF unchanged_fields_trans first Cons.IH [of posts1]] step None
    show ?thesis by simp
  next
    case (Some e)
    with first step show ?thesis by simp
  qed
qed

text \<open>
  Claim C8.  Whatever the images, and whether the merge completes or throws on the way,
  the array of posts keeps its length and every post keeps its \<^verbatim>\<open>meta.id\<close>,
  \<^verbatim>\<open>meta.slug\<close>, \<^verbatim>\<open>meta.coverImageId\<close>, \<^verbatim>\<open>meta.type\<close>, its front-matter fields other
  than \<^verbatim>\<open>coverImage\<close>, and its \<^verbatim>\<open>content\<close>: the merge writes to
  \<^verbatim>\<open>frontmatter.coverImage\<close> and \<^verbatim>\<open>meta.imageUrls\<close> only.
\<close>

theorem mergeImagesIntoPosts_frame:
  "list_all2 unchanged_fields posts (fst (mergeImagesIntoPosts E images posts))"
  unfolding mergeImagesIntoPosts_def by (rule merge_loop_frame)

section \<open>Records as collected\<close>

lemma getPostCoverImageId_value:
  "getPostCoverImageId it = Inr v \<Longrightarrow> v = Undefined \<or> (\<exists>s. v = Str s)"
  by (auto simp: getPostCoverImageId_def bindE_Inr_iff split: if_splits option.splits)

lemma build_post_fresh:
  assumes "build_post E cfg it = Inr p"
  shows "meta_imageUrls (meta p) = []" and "fm_coverImage (frontmatter p) = Undefined"
    and "meta_coverImageId (meta p) = Undefined \<or> (\<exists>s. meta_coverImageId (meta p) = Str s)"
proof -
  from assms obtain v_cover where cover: "getPostCoverImageId it = Inr v_cover"
    and fields: "meta_coverImageId (meta p) = v_cover \<and> meta_imageUrls (meta p) = []
      \<and> fm_coverImage (frontmatter p) = Undefined"
    unfolding build_post_def bindE_Inr_iff by (elim exE conjE) auto
  from fields show "meta_imageUrls (meta p) = []" and "fm_coverImage (frontmatter p) = Undefined"
    by simp_all
  from fields getPostCoverImageId_value [OF cover]
  show "meta_coverImageId (meta p) = Undefined \<or> (\<exists>s. meta_coverImageId (meta p) = Str s)"
    by simp
qed

lemma collectPosts_built:
  assumes "collectPosts E data cfg = Inr posts" and "p \<in> set posts"
  shows "\<exists>it. build_post E cfg it = Inr p"
proof -
  from assms(1) obtain kept where "mapE (build_post E cfg) kept = Inr posts"
    unfolding collectPosts_def by (auto simp: bindE_Inr_iff)
  from mapE_list_all2 [OF this] assms(2) show ?thesis
    by (auto simp: list_all2_conv_all_nth in_set_conv_nth)
qed

section \<open>Image URLs of a post\<close>

lemma parseFilePromise_Inr:
  assumes "parseFilePromise E data cfg = Inr result"
  obtains posts images where "collectPosts E data cfg = Inr posts"
    and "collectImages E data cfg = Inr images"
    and "mergeImagesIntoPosts E images posts = (result, None)"
proof -
  from assms obtain posts images where
    posts: "collectPosts E data cfg = Inr posts" and
    images: "collectImages E data cfg = Inr images" and
    merge: "(case mergeImagesIntoPosts E images posts of
              (posts', Some e) \<Rightarrow> Inl e | (posts', None) \<Rightarrow> Inr posts') = Inr result"
    unfolding parseFilePromise_def by (auto simp: bindE_Inr_iff)
  from merge have "mergeImagesIntoPosts E images posts = (result, None)"
    by (cases "mergeImagesIntoPosts E images posts") (auto split: option.splits)
  with posts images that show ?thesis by blast
qed

lemma mergeImagesIntoPosts_nth:
  assumes "mergeImagesIntoPosts E images posts = (posts', None)" and "i < length posts"
  shows "posts' ! i = fold (apply_image E) (images_of posts i images) (posts ! i)"
  using merge_loop_nth [of E "postsLookup posts" images posts posts' i] assms
  by (simp add: mergeImagesIntoPosts_def images_of_def)

lemma mergeImagesIntoPosts_length:
  "mergeImagesIntoPosts E images posts = (posts', err) \<Longrightarrow> length posts' = length posts"
  using merge_loop_length [of E "postsLookup posts" images posts]
  by (simp add: mergeImagesIntoPosts_def)

lemma collectImages_order:
  assumes "collectImages E data cfg = Inr images"
    and "saveAttachedImages cfg" and "saveScrapedImages cfg"
  shows "\<exists>attached scraped. collectAttachedImages data = Inr attached
           \<and> collectScrapedImages E data cfg = Inr scraped \<and> images = attached @ scraped"
  using assms by (auto simp: collectImages_def bindE_Inr_iff)

text \<open>
  Claim C3.  When the pipeline returns, the \<^verbatim>\<open>meta.imageUrls\<close> of every post has no
  duplicate, and it lists the URLs of the image references the merge resolved to that
  post in the order of their first occurrence in the merged sequence; with both
  sources enabled, that sequence is the attached images followed by the scraped ones.
  When the post ids are unique, the references resolved to a post are those that
  carry its id (lemma \<open>images_of_post_id\<close>).
\<close>

theorem imageUrls_first_occurrences:
  assumes "parseFilePromise E data cfg = Inr result"
  shows "\<exists>posts images.
           collectPosts E data cfg = Inr posts \<and> collectImages E data cfg = Inr images
           \<and> length result = length posts
           \<and> (\<forall>i < length result.
                 distinct (meta_imageUrls (meta (result ! i)))
                 \<and> meta_imageUrls (meta (result ! i))
                     = first_occurrences (map img_url (images_of posts i images)))
           \<and> (saveAttachedImages cfg \<and> saveScrapedImages cfg \<longrightarrow>
                 (\<exists>attached scraped.
                    collectAttachedImages data = Inr attached
                    \<and> collectScrapedImages E data cfg = Inr scraped
                    \<and> images = attached @ scraped))"
proof -
  from assms obtain posts images where
    posts: "collectPosts E data cfg = Inr posts" and
    images: "collectImages E data cfg = Inr images" and
    merge: "mergeImagesIntoPosts E images posts = (result, None)"
    by (rule parseFilePromise_Inr)
  have len: "length result = length posts"
    using merge by (rule mergeImagesIntoPosts_length)
  have urls: "meta_imageUrls (meta (result ! i))
      = first_occurrences (map img_url (images_of posts i images))" if "i < length result" for i
  proof -
    from that len have i: "i < length posts" by simp
    then have "posts ! i \<in> set posts" by simp
    with collectPosts_built [OF posts] obtain it where "build_post E cfg it = Inr (posts ! i)"
      by blast
    then have "meta_imageUrls (meta (posts ! i)) = []"
      by (rule build_post_fresh)
    with mergeImagesIntoPosts_nth [OF merge i] show ?thesis
      by (simp add: imageUrls_fold_apply_image append_new_first_occurrences)
  qed
  have "\<forall>i < length result.
          distinct (meta_imageUrls (meta (result ! i)))
          \<and> meta_imageUrls (meta (result ! i))
              = first_occurrences (map img_url (images_of posts i images))"
    using urls by simp
  with posts images len collectImages_order [OF images] show ?thesis by blast
qed

lemma sample_images_of_page:
  "map img_url (images_of sample_posts 1 (sample_attached @ sample_scraped))
     = [''https://example.com/wp-content/uploads/cover.jpg'', ''https://example.com/team.jpeg'',
        ''https://example.com/team.jpeg'']"
  by (simp add: images_of_def sample_owner sample_attached_def sample_scraped_def)

theorem imageUrls_first_occurrences_witness:
  "parseFilePromise sample_env sample_document sample_config = Inr sample_result
   \<and> map img_url (images_of sample_posts 1 (sample_attached @ sample_scraped))
       = [''https://example.com/wp-content/uploads/cover.jpg'', ''https://example.com/team.jpeg'',
          ''https://example.com/team.jpeg'']
   \<and> distinct (meta_imageUrls (meta (sample_result ! 1)))
   \<and> meta_imageUrls (meta (sample_result ! 1))
       = first_occurrences (map img_url (images_of sample_posts 1 (sample_attached @ sample_scraped)))
   \<and> collectAttachedImages sample_document = Inr sample_attached
   \<and> collectScrapedImages sample_env sample_document sample_config = Inr sample_scraped"
proof -
  from imageUrls_first_occurrences [OF sample_result] obtain posts images where
    "collectPosts sample_env sample_document sample_config = Inr posts" and
    "collectImages sample_env sample_document sample_config = Inr images" and
    all: "\<forall>i < length sample_result.
            distinct (meta_imageUrls (meta (sample_result ! i)))
            \<and> meta_imageUrls (meta (sample_result ! i))
                = first_occurrences (map img_url (images_of posts i images))"
    by blast
  then have eq: "posts = sample_posts" "images = sample_attached @ sample_scraped"
    by (simp_all add: sample_posts sample_images)
  have "(1::nat) < length sample_result"
    by (simp add: sample_result_def)
  with all have "distinct (meta_imageUrls (meta (sample_result ! 1)))
      \<and> meta_imageUrls (meta (sample_result ! 1))
          = first_occurrences (map img_url (images_of posts 1 images))"
    by blast
  then show ?thesis
    unfolding eq using sample_result sample_images_of_page sample_attached sample_scraped
    by simp
qed

section \<open>The cover image\<close>

text \<open>
  Claim C4.  After a merge that completes, the \<^verbatim>\<open>frontmatter.coverImage\<close> of a post is
  the filename derived from the URL of the last image reference, in the order of the
  input, that the lookup resolves to the post and whose id equals the post's
  \<^verbatim>\<open>meta.coverImageId\<close>; with no such reference the field is as before.  In the sample
  document the post has the \<^verbatim>\<open>postmeta\<close> entry \<^verbatim>\<open>_thumbnail_id\<close> = 42, and the
  attachment with \<^verbatim>\<open>post_id\<close> 42 is attached to the post and has the URL
  \<^verbatim>\<open>https://example.com/wp-content/uploads/cover.jpg\<close>: the pipeline gives the post
  the cover image \<^verbatim>\<open>cover.jpg\<close>, the last path segment of that URL.
\<close>

theorem coverImage_last_match:
  "(mergeImagesIntoPosts E images posts = (posts', None) \<and> i < length posts \<longrightarrow>
      fm_coverImage (frontmatter (posts' ! i))
        = (let matches = filter (\<lambda>im. img_id im = meta_coverImageId (meta (posts ! i)))
                           (images_of posts i images)
           in if matches = [] then fm_coverImage (frontmatter (posts ! i))
              else Str (getFilenameFromUrl E (img_url (last matches)))))
   \<and> parseFilePromise sample_env sample_document sample_config = Inr sample_result
   \<and> map (\<lambda>p. fm_coverImage (frontmatter p)) sample_result = [Str ''cover.jpg'', Undefined]"
proof (intro conjI impI)
  assume "mergeImagesIntoPosts E images posts = (posts', None) \<and> i < length posts"
  then have "posts' ! i = fold (apply_image E) (images_of posts i images) (posts ! i)"
    by (simp add: mergeImagesIntoPosts_nth)
  then show "fm_coverImage (frontmatter (posts' ! i))
        = (let matches = filter (\<lambda>im. img_id im = meta_coverImageId (meta (posts ! i)))
                           (images_of posts i images)
           in if matches = [] then fm_coverImage (frontmatter (posts ! i))
              else Str (getFilenameFromUrl E (img_url (last matches))))"
    by (simp only: coverImage_fold_apply_image Let_def)
next
  show "parseFilePromise sample_env sample_document sample_config = Inr sample_result"
    by (rule sample_result)
next
  show "map (\<lambda>p. fm_coverImage (frontmatter p)) sample_result = [Str ''cover.jpg'', Undefined]"
    by (simp add: sample_result_def post_record_def page_record_def)
qed

lemma two_covers_merge:
  "\<exists>posts'. mergeImagesIntoPosts sample_env two_covers sample_posts = (posts', None)"
  by (simp add: mergeImagesIntoPosts_def two_covers_def sample_posts_def
      merge_image_cases sample_owner [unfolded sample_posts_def])

lemma two_covers_name:
  "filename_from_url ''https://example.com/a/second.jpg'' = ''second.jpg''"
  by code_simp

theorem coverImage_last_match_witness:
  "\<exists>posts'. mergeImagesIntoPosts sample_env two_covers sample_posts = (posts', None)
     \<and> (0::nat) < length sample_posts
     \<and> fm_coverImage (frontmatter (posts' ! 0)) = Str ''second.jpg''"
proof -
  from two_covers_merge obtain posts' where
    merge: "mergeImagesIntoPosts sample_env two_covers sample_posts = (posts', None)" ..
  have len: "(0::nat) < length sample_posts"
    by (simp add: sample_posts_def)
  have "filter (\<lambda>im. img_id im = meta_coverImageId (meta (sample_posts ! 0)))
          (images_of sample_posts 0 two_covers)
        = [two_covers ! 0, two_covers ! 2]"
    by (simp add: images_of_def sample_owner two_covers_def)
      (simp add: sample_posts_def post_record_def)
  with coverImage_last_match [of sample_env two_covers sample_posts posts' 0] merge len
  have "fm_coverImage (frontmatter (posts' ! 0))
      = Str (getFilenameFromUrl sample_env (img_url (two_covers ! 2)))"
    by simp
  then have "fm_coverImage (frontmatter (posts' ! 0)) = Str ''second.jpg''"
    by (simp add: two_covers_def sample_env_def two_covers_name)
  with merge len show ?thesis by (intro exI [of _ posts']) simp
qed

section \<open>Scraped images and the cover image\<close>

lemma mapE_in_set: "mapE f xs = Inr ys \<Longrightarrow> y \<in> set ys \<Longrightarrow> \<exists>x \<in> set xs. f x = Inr y"
  by (induction xs arbitrary: ys) (auto simp: bindE_Inr_iff)

lemma collectScrapedImages_id:
  assumes "collectScrapedImages E data cfg = Inr scraped" and "im \<in> set scraped"
  shows "img_id im = Num (- 1)"
proof -
  from assms(1) obtain items found where
    found: "mapE (scrape_post E) items = Inr found" and scraped: "scraped = concat found"
    unfolding collectScrapedImages_def by (auto simp: bindE_Inr_iff)
  from assms(2) scraped obtain refs where refs: "refs \<in> set found" and im: "im \<in> set refs"
    by auto
  from mapE_in_set [OF found refs] obtain postId postLink ms where
    "mapE (scraped_image E postId postLink) ms = Inr refs"
    by (auto simp: scrape_post_def bindE_Inr_iff)
  from mapE_in_set [OF this im] show ?thesis
    by (auto simp: scraped_image_def bindE_Inr_iff)
qed

lemma coverImage_apply_image_other:
  "img_id im \<noteq> meta_coverImageId (meta p) \<Longrightarrow>
     fm_coverImage (frontmatter (apply_image E im p)) = fm_coverImage (frontmatter p)"
  by (simp add: coverImage_apply_image)

lemma merge_image_cover_kept:
  assumes "\<forall>p \<in> set posts. img_id im \<noteq> meta_coverImageId (meta p)"
  shows "list_all2 (\<lambda>p q. fm_coverImage (frontmatter q) = fm_coverImage (frontmatter p))
           posts (fst (merge_image E L im posts))"
proof (rule list_all2_all_nthI)
  show "length posts = length (fst (merge_image E L im posts))"
    by (simp add: merge_image_length)
next
  fix n
  assume n: "n < length posts"
  with assms have other: "img_id im \<noteq> meta_coverImageId (meta (posts ! n))"
    by simp
  show "fm_coverImage (frontmatter (fst (merge_image E L im posts) ! n))
      = fm_coverImage (frontmatter (posts ! n))"
  proof (cases "get_prop posts L (img_postId im)")
    case (PostRef i)
    with n other show ?thesis
      by (cases "i = n") (simp_all add: merge_image_cases coverImage_apply_image_other)
  qed (simp_all add: merge_image_cases)
qed

lemma merge_loop_cover_kept:
  assumes "\<forall>im \<in> set ims. \<forall>p \<in> set posts. img_id im \<noteq> meta_coverImageId (meta p)"
  shows "list_all2 (\<lambda>p q. fm_coverImage (frontmatter q) = fm_coverImage (frontmatter p))
           posts (fst (merge_loop E L ims posts))"
  using assms
proof (induction ims arbitrary: posts)
  case Nil
  show ?case by (simp add: list_all2_refl)
next
  case (Cons im ims)
  obtain posts1 err where step: "merge_image E L im posts = (posts1, err)"
    by (cases "merge_image E L im posts")
  from Cons.prems have "\<forall>p \<in> set posts. img_id im \<noteq> meta_coverImageId (meta p)"
    by simp
  from merge_image_cover_kept [OF this, of E L] step
  have first: "list_all2 (\<lambda>p q. fm_coverImage (frontmatter q) = fm_coverImage (frontmatter p))
                 posts posts1"
    by simp
  from merge_image_frame [of posts E L im] step
  have frame: "list_all2 unchanged_fields posts posts1"
    by simp
  have ids: "\<forall>im \<in> set ims. \<forall>q \<in> set posts1. img_id im \<noteq> meta_coverImageId (meta q)"
  proof (intro ballI)
    fix im' q
    assume im': "im' \<in> set ims" and "q \<in> set posts1"
    then obtain n where n: "n < length posts1" and q: "q = posts1 ! n"
      by (auto simp: in_set_conv_nth)
    from frame n have "unchanged_fields (posts ! n) (posts1 ! n)" and "n < length posts"
      by (simp_all add: list_all2_conv_all_nth)
    with Cons.prems im' q show "img_id im' \<noteq> meta_coverImageId (meta q)"
      by (simp add: unchanged_fields_def)
  qed
  show ?case
  proof (cases err)
    case None
    have "list_all2 (\<lambda>p q. fm_coverImage (frontmatter q) = fm_coverImage (frontmatter p))
            posts (fst (merge_loop E L ims posts1))"
      using first Cons.IH [OF ids]
      by (rule list_all2_trans [rotated]) simp
    with step None show ?thesis by simp
  next
    case (Some e)
    with first step show ?thesis by simp
  qed
qed

text \<open>
  Claim C10.  The id of a scraped image reference is the number \<open>-1\<close>; the
  \<^verbatim>\<open>meta.coverImageId\<close> of a collected post is \<open>undefined\<close> or a string read from
  \<^verbatim>\<open>postmeta\<close>.  So the comparison of the merge is false for every scraped reference
  and every post, and a merge of scraped references alone leaves the
  \<^verbatim>\<open>frontmatter.coverImage\<close> of every post \<open>undefined\<close>, as post collection made it.
\<close>

theorem scraped_images_set_no_cover:
  assumes "collectPosts E data cfg = Inr posts"
    and "collectScrapedImages E data cfg = Inr scraped"
  shows "(\<forall>im \<in> set scraped. \<forall>p \<in> set posts.
            img_id im = Num (- 1)
            \<and> (meta_coverImageId (meta p) = Undefined \<or> (\<exists>s. meta_coverImageId (meta p) = Str s))
            \<and> img_id im \<noteq> meta_coverImageId (meta p))
         \<and> (\<forall>q \<in> set (fst (mergeImagesIntoPosts E scraped posts)).
               fm_coverImage (frontmatter q) = Undefined)"
proof -
  have cmp: "img_id im = Num (- 1)
      \<and> (meta_coverImageId (meta p) = Undefined \<or> (\<exists>s. meta_coverImageId (meta p) = Str s))
      \<and> img_id im \<noteq> meta_coverImageId (meta p)"
    if "im \<in> set scraped" and "p \<in> set posts" for im p
  proof -
    from collectPosts_built [OF assms(1) that(2)] obtain it where
      "build_post E cfg it = Inr p" ..
    from build_post_fresh(3) [OF this] collectScrapedImages_id [OF assms(2) that(1)]
    show ?thesis by auto
  qed
  then have "\<forall>im \<in> set scraped. \<forall>p \<in> set posts. img_id im \<noteq> meta_coverImageId (meta p)"
    by blast
  from merge_loop_cover_kept [OF this, of E "postsLookup posts"]
  have kept: "list_all2 (\<lambda>p q. fm_coverImage (frontmatter q) = fm_coverImage (frontmatter p))
                posts (fst (mergeImagesIntoPosts E scraped posts))"
    by (simp add: mergeImagesIntoPosts_def)
  have "fm_coverImage (frontmatter q) = Undefined"
    if "q \<in> set (fst (mergeImagesIntoPosts E scraped posts))" for q
  proof -
    from that obtain n where n: "n < length (fst (mergeImagesIntoPosts E scraped posts))"
      and q: "q = fst (mergeImagesIntoPosts E scraped posts) ! n"
      by (auto simp: in_set_conv_nth)
    from kept n q have n': "n < length posts"
      and same: "fm_coverImage (frontmatter q) = fm_coverImage (frontmatter (posts ! n))"
      by (simp_all add: list_all2_conv_all_nth)
    from n' have "posts ! n \<in> set posts" by simp
    from collectPosts_built [OF assms(1) this] obtain it where
      "build_post E cfg it = Inr (posts ! n)" ..
    from build_post_fresh(2) [OF this] same show ?thesis by simp
  qed
  with cmp show ?thesis by blast
qed

theorem scraped_images_set_no_cover_witness:
  "collectPosts sample_env sample_document sample_config = Inr sample_posts
   \<and> collectScrapedImages sample_env sample_document sample_config = Inr sample_scraped
   \<and> sample_scraped ! 0 \<in> set sample_scraped \<and> post_record \<in> set sample_posts
   \<and> img_id (sample_scraped ! 0) = Num (- 1)
   \<and> meta_coverImageId (meta post_record) = Str ''42''
   \<and> img_id (sample_scraped ! 0) \<noteq> meta_coverImageId (meta post_record)
   \<and> map (\<lambda>q. fm_coverImage (frontmatter q))
        (fst (mergeImagesIntoPosts sample_env sample_scraped sample_posts))
       = [Undefined, Undefined]"
proof -
  have im: "sample_scraped ! 0 \<in> set sample_scraped"
    by (simp add: sample_scraped_def)
  have p: "post_record \<in> set sample_posts"
    by (simp add: sample_posts_def)
  have len: "length (fst (mergeImagesIntoPosts sample_env sample_scraped sample_posts)) = 2"
    using mergeImagesIntoPosts_length [of sample_env sample_scraped sample_posts]
    by (cases "mergeImagesIntoPosts sample_env sample_scraped sample_posts")
      (simp add: sample_posts_def)
  from scraped_images_set_no_cover [OF sample_posts sample_scraped] im p
  have "img_id (sample_scraped ! 0) = Num (- 1)
      \<and> img_id (sample_scraped ! 0) \<noteq> meta_coverImageId (meta post_record)"
    and all: "\<forall>q \<in> set (fst (mergeImagesIntoPosts sample_env sample_scraped sample_posts)).
      fm_coverImage (frontmatter q) = Undefined"
    by blast+
  moreover from all len
  have "map (\<lambda>q. fm_coverImage (frontmatter q))
          (fst (mergeImagesIntoPosts sample_env sample_scraped sample_posts))
        = [Undefined, Undefined]"
    by (cases "fst (mergeImagesIntoPosts sample_env sample_scraped sample_posts)"
        rule: list.exhaust [case_names Nil Cons])
      (auto simp: length_Suc_conv numeral_2_eq_2)
  moreover have "meta_coverImageId (meta post_record) = Str ''42''"
    by (simp add: post_record_def)
  ultimately show ?thesis
    using sample_posts sample_scraped im p by simp
qed

section \<open>Image references without a post\<close>

lemma own_build_lookup_other:
  "k \<notin> set (map (\<lambda>p. meta_id (meta p)) ps) \<Longrightarrow> own (build_lookup ps n L) k = own L k"
  by (induction ps arbitrary: n L) (simp_all add: set_prop_def)

lemma proto_build_lookup_other:
  "''__proto__'' \<notin> set (map (\<lambda>p. meta_id (meta p)) ps) \<Longrightarrow>
     proto (build_lookup ps n L) = proto L"
  by (induction ps arbitrary: n L) (auto simp: set_prop_def)

text \<open>An image reference whose \<^verbatim>\<open>postId\<close> is the id of no post is dropped, and the posts
  stay as they are, as long as the \<^verbatim>\<open>postId\<close> is not the name of a property a plain
  object inherits.\<close>

lemma merge_image_orphan:
  assumes "img_postId im \<notin> set (map (\<lambda>p. meta_id (meta p)) posts)"
    and "img_postId im \<notin> set object_prototype_names"
    and "img_postId im \<notin> {''__proto__'', ''meta'', ''frontmatter'', ''content''}"
  shows "merge_image E (postsLookup posts) im ps = (ps, None)"
proof -
  from assms(1) have "own (postsLookup posts) (img_postId im) = None"
    by (simp add: postsLookup_def own_build_lookup_other empty_lookup_def)
  with assms(2,3) have "get_prop ps (postsLookup posts) (img_postId im) = Falsy"
    by (simp add: get_prop_def inherited_def split: option.splits)
  then show ?thesis
    by (simp add: merge_image_cases)
qed

lemma orphan_items: "channel_items orphan_document = Inr [sample_post, orphan_attachment]"
  by (simp add: channel_items_def orphan_document_def)

lemma logo_ext: "has_image_ext ''https://example.com/wp-content/uploads/logo.png''"
  by code_simp

lemma orphan_posts: "collectPosts sample_env orphan_document sample_config = Inr [post_record]"
proof -
  have "getItemsOfTypes orphan_document [''post'', ''page''] = Inr [sample_post]"
    by (simp add: getItemsOfTypes_def orphan_items)
      (simp add: sample_item_defs orphan_attachment_def)
  moreover have "filterE (\<lambda>p. bindE (idx0 (status p))
            (\<lambda>s. Inr (s \<noteq> ''trash'' \<and> s \<noteq> ''draft''))) [sample_post] = Inr [sample_post]"
    by (simp add: sample_item_defs)
  ultimately show ?thesis
    by (simp add: collectPosts_def sample_config_def split_sample_types
        build_post_record [unfolded sample_config_def])
qed

lemma orphan_images:
  "collectImages sample_env orphan_document sample_config
     = Inr [orphan_image, \<lparr> img_id = Num (- 1), img_postId = ''7'',
                            img_url = ''https://example.com/post/photo.png'' \<rparr>]"
proof -
  have "collectAttachedImages orphan_document = Inr [orphan_image]"
    by (simp add: collectAttachedImages_def getItemsOfTypes_def orphan_items sample_item_defs
        orphan_attachment_def logo_ext orphan_image_def)
  moreover have "collectScrapedImages sample_env orphan_document sample_config
      = Inr [\<lparr> img_id = Num (- 1), img_postId = ''7'',
               img_url = ''https://example.com/post/photo.png'' \<rparr>]"
    by (simp add: collectScrapedImages_def scrape_post_def scraped_image_def getItemsOfTypes_def
        orphan_items sample_config_def split_sample_types sample_item_defs orphan_attachment_def
        sample_env_def sample_post_srcs href_photo)
  ultimately show ?thesis
    by (simp add: collectImages_def) (simp add: sample_config_def)
qed

text \<open>
  Claim C6.  An image reference whose \<^verbatim>\<open>postId\<close> is the id of no post should be dropped
  without an error.  The lookup table is a plain object, so the key \<^verbatim>\<open>constructor\<close>
  finds the function every object inherits: the guard \<^verbatim>\<open>if (post)\<close> lets it through,
  it has no \<^verbatim>\<open>meta\<close>, and reading \<^verbatim>\<open>meta.coverImageId\<close> throws.  In the document below
  the only post has the id 7 and the attachment names the parent \<^verbatim>\<open>constructor\<close>: the
  merge throws a TypeError at that reference, and the pipeline returns no posts.
\<close>

theorem orphan_image_throws:
  "collectPosts sample_env orphan_document sample_config = Inr [post_record]
   \<and> img_postId orphan_image \<notin> set (map (\<lambda>p. meta_id (meta p)) [post_record])
   \<and> collectImages sample_env orphan_document sample_config
       = Inr [orphan_image, \<lparr> img_id = Num (- 1), img_postId = ''7'',
                              img_url = ''https://example.com/post/photo.png'' \<rparr>]
   \<and> mergeImagesIntoPosts sample_env [orphan_image] [post_record]
       = ([post_record], Some TypeError)
   \<and> parseFilePromise sample_env orphan_document sample_config = Inl TypeError"
proof -
  have lookup: "postsLookup [post_record] = \<lparr> own = [''7'' \<mapsto> 0], proto = None \<rparr>"
    by (simp add: postsLookup_def post_record_def set_prop_def empty_lookup_def)
  have key: "get_prop ps (postsLookup [post_record]) ''constructor'' = OtherValue" for ps
    by (simp add: lookup get_prop_def inherited_def object_prototype_names_def)
  have one: "mergeImagesIntoPosts sample_env [orphan_image] [post_record]
      = ([post_record], Some TypeError)"
    by (simp add: mergeImagesIntoPosts_def merge_image_cases orphan_image_def key)
  have both: "mergeImagesIntoPosts sample_env
      [orphan_image, \<lparr> img_id = Num (- 1), img_postId = ''7'',
                       img_url = ''https://example.com/post/photo.png'' \<rparr>] [post_record]
      = ([post_record], Some TypeError)"
    by (simp add: mergeImagesIntoPosts_def merge_image_cases orphan_image_def key)
  have "img_postId orphan_image \<notin> set (map (\<lambda>p. meta_id (meta p)) [post_record])"
    by (simp add: orphan_image_def post_record_def)
  with one both show ?thesis
    by (simp add: parseFilePromise_def orphan_posts orphan_images)
qed

section \<open>Scraped images\<close>

lemma mapE_at: "mapE f xs = Inr ys \<Longrightarrow> x \<in> set xs \<Longrightarrow> \<exists>y \<in> set ys. f x = Inr y"
  by (induction xs arbitrary: ys) (auto simp: bindE_Inr_iff)

lemma match_at_no_bracket: "c \<noteq> CHR ''<'' \<Longrightarrow> match_at (c # cs) = None"
  by (simp add: match_at_def lower_ascii_def)

lemma img_srcs_skip: "CHR ''<'' \<notin> set pre \<Longrightarrow> img_srcs (pre @ s) = img_srcs s"
  by (induction pre) (auto simp: match_at_no_bracket)

lemma match_at_photo:
  "match_at (''<img src='' @ dq @ ''photo.png'' @ dq @ ''>'' @ s) = Some (''photo.png'', s)"
  by (simp add: match_at_def src_attr_def close_tag_def dq_def lower_ascii_def)

lemma img_srcs_photo:
  assumes "CHR ''<'' \<notin> set pre"
  shows "img_srcs (pre @ ''<img src='' @ dq @ ''photo.png'' @ dq @ ''>'' @ s)
           = ''photo.png'' # img_srcs s"
proof -
  have "img_srcs (''<img src='' @ dq @ ''photo.png'' @ dq @ ''>'' @ s) = ''photo.png'' # img_srcs s"
    using match_at_photo [of s] by (simp add: dq_def)
  with img_srcs_skip [OF assms, of "''<img src='' @ dq @ ''photo.png'' @ dq @ ''>'' @ s"]
  show ?thesis
    by (rule trans)
qed

text \<open>
  Claim C5, as the code has it.  Take an item of a configured type whose body holds
  the tag \<^verbatim>\<open><img src="photo.png">\<close> with no opening bracket before it, and whose link is
  \<^verbatim>\<open>https://example.com/post/\<close>.  When scraped-image discovery returns, it has emitted
  for this item a reference with the "no id" sentinel \<open>-1\<close>, the item's post id, and the
  URL \<^verbatim>\<open>https://example.com/post/photo.png\<close>: the link ends with a slash, so the
  relative reference is resolved inside \<^verbatim>\<open>/post/\<close>.
\<close>

theorem scraped_image_resolved:
  assumes "collectScrapedImages E data cfg = Inr scraped"
    and "channel_items data = Inr items" and "p \<in> set items"
    and "post_type p = t # ts" and "t \<in> set (split_on CHR '','' (postTypes cfg))"
    and "post_id p = pid # pids"
    and "encoded p = (pre @ ''<img src='' @ dq @ ''photo.png'' @ dq @ ''>'' @ rest) # excerpts"
    and "CHR ''<'' \<notin> set pre"
    and "link p = ''https://example.com/post/'' # links"
    and "URL_href E = url_href"
  shows "\<lparr> img_id = Num (- 1), img_postId = pid,
           img_url = ''https://example.com/post/photo.png'' \<rparr> \<in> set scraped"
proof -
  let ?ref = "\<lparr> img_id = Num (- 1), img_postId = pid,
                img_url = ''https://example.com/post/photo.png'' \<rparr>"
  from assms(1,2) obtain typed found where
    typed: "filterE (\<lambda>it. bindE (idx0 (post_type it))
              (\<lambda>t. Inr (t \<in> set (split_on CHR '','' (postTypes cfg))))) items = Inr typed" and
    found: "mapE (scrape_post E) typed = Inr found" and scraped: "scraped = concat found"
    unfolding collectScrapedImages_def getItemsOfTypes_def by (auto simp: bindE_Inr_iff)
  from filterE_filter [OF typed] assms(3,4,5) have "p \<in> set typed"
    by simp
  from mapE_at [OF found this] obtain refs where
    refs: "refs \<in> set found" and p: "scrape_post E p = Inr refs"
    by auto
  have "scrape_post E p
      = mapE (scraped_image E pid ''https://example.com/post/'') (''photo.png'' # img_srcs rest)"
    unfolding scrape_post_def assms(6,7,9) idx0_Cons bindE_Inr img_srcs_photo [OF assms(8)] ..
  with p have "?ref \<in> set refs"
    by (auto simp: scraped_image_def assms(10) href_photo bindE_Inr_iff)
  with refs scraped show ?thesis
    by auto
qed

theorem scraped_image_resolved_witness:
  "collectScrapedImages sample_env sample_document sample_config = Inr sample_scraped
   \<and> sample_post \<in> set [sample_post, sample_attachment, sample_draft, sample_page]
   \<and> ''post'' \<in> set (split_on CHR '','' (postTypes sample_config))
   \<and> encoded sample_post = ([] @ ''<img src='' @ dq @ ''photo.png'' @ dq @ ''>'' @ []) # [[]]
   \<and> link sample_post = ''https://example.com/post/'' # []
   \<and> URL_href sample_env = url_href
   \<and> \<lparr> img_id = Num (- 1), img_postId = ''7'',
         img_url = ''https://example.com/post/photo.png'' \<rparr> \<in> set sample_scraped"
proof -
  have types: "''post'' \<in> set (split_on CHR '','' (postTypes sample_config))"
    by (simp add: sample_config_def)
  have body: "encoded sample_post = ([] @ ''<img src='' @ dq @ ''photo.png'' @ dq @ ''>'' @ []) # [[]]"
    by (simp add: sample_post_def sample_post_body_def)
  have lnk: "link sample_post = ''https://example.com/post/'' # []"
    by (simp add: sample_post_def)
  have href: "URL_href sample_env = url_href"
    by (simp add: sample_env_def)
  have mem: "sample_post \<in> set [sample_post, sample_attachment, sample_draft, sample_page]"
    by simp
  have "post_type sample_post = ''post'' # []" and "post_id sample_post = ''7'' # []"
    by (simp_all add: sample_post_def)
  from scraped_image_resolved [OF sample_scraped sample_items mem this(1) types this(2) body _ lnk href]
  have "\<lparr> img_id = Num (- 1), img_postId = ''7'',
         img_url = ''https://example.com/post/photo.png'' \<rparr> \<in> set sample_scraped"
    by simp
  with sample_scraped mem types body lnk href show ?thesis
    by simp
qed

lemma single_post_scraped:
  "collectScrapedImages sample_env single_post_document sample_config = Inr [photo_ref]"
  by (simp add: collectScrapedImages_def scrape_post_def scraped_image_def getItemsOfTypes_def
      channel_items_def single_post_document_def sample_config_def split_sample_types
      sample_post_def tagged_item_def empty_item_def sample_env_def sample_post_srcs href_photo
      photo_ref_def)

text \<open>
  The claim as the spec words it expects the URL \<^verbatim>\<open>https://example.com/photo.png\<close>.  For
  the post whose body is the tag and whose link is \<^verbatim>\<open>https://example.com/post/\<close>,
  discovery emits one reference, and its URL is another.
\<close>

theorem scraped_image_url_counterexample:
  "encoded sample_post = [''<img src='' @ dq @ ''photo.png'' @ dq @ ''>'', []]
   \<and> link sample_post = [''https://example.com/post/'']
   \<and> collectScrapedImages sample_env single_post_document sample_config = Inr [photo_ref]
   \<and> img_id photo_ref = Num (- 1)
   \<and> img_url photo_ref = ''https://example.com/post/photo.png''
   \<and> img_url photo_ref \<noteq> ''https://example.com/photo.png''"
  by (simp add: single_post_scraped photo_ref_def sample_post_def sample_post_body_def)

section \<open>The publication date\<close>

lemma build_post_date:
  assumes "build_post E cfg it = Inr p"
  shows "\<exists>d ds. pubDate it = d # ds \<and> fm_date (frontmatter p) = fromRFC2822_toISODate E d"
proof -
  from assms obtain v_date where "getPostDate E it = Inr v_date"
    and "fm_date (frontmatter p) = v_date"
    unfolding build_post_def bindE_Inr_iff by (elim exE conjE) auto
  then show ?thesis
    by (auto simp: getPostDate_def bindE_Inr_iff idx0_Inr_iff)
qed

text \<open>The printed date has the shape \<^verbatim>\<open>YYYY-MM-DD\<close> for the years 0000 to 9999.\<close>

lemma iso_date_shape:
  "0 \<le> y \<Longrightarrow> y \<le> 9999 \<Longrightarrow>
     length (iso_date (y, m, d)) = 10 \<and> iso_date (y, m, d) ! 4 = CHR ''-''
     \<and> iso_date (y, m, d) ! 7 = CHR ''-''"
  by (simp add: iso_date_def four_digits_def two_digits_def)

text \<open>
  Claim C7.  The \<^verbatim>\<open>frontmatter.date\<close> of every collected post is the date conversion
  applied to the first \<^verbatim>\<open>pubDate\<close> of its item.  With the conversion read from the
  spec (the RFC 2822 timestamp, moved to UTC, printed as \<^verbatim>\<open>YYYY-MM-DD\<close>), the
  timestamp \<^verbatim>\<open>Wed, 01 Jan 2020 00:00:00 +0000\<close> gives \<^verbatim>\<open>2020-01-01\<close>.
\<close>

theorem post_date_iso:
  "(collectPosts E data cfg = Inr posts \<longrightarrow>
      (\<exists>items. channel_items data = Inr items
         \<and> list_all2 (\<lambda>it p. \<exists>d ds. pubDate it = d # ds
                        \<and> fm_date (frontmatter p) = fromRFC2822_toISODate E d)
              (filter (selected cfg) items) posts))
   \<and> fromRFC2822_toISODate sample_env = rfc2822_iso_date
   \<and> rfc2822_iso_date ''Wed, 01 Jan 2020 00:00:00 +0000'' = Str ''2020-01-01''
   \<and> pubDate sample_post = [''Wed, 01 Jan 2020 00:00:00 +0000'']
   \<and> getPostDate sample_env sample_post = Inr (Str ''2020-01-01'')"
proof (intro conjI impI)
  assume "collectPosts E data cfg = Inr posts"
  from collectPosts_kept [OF this] obtain items where
    items: "channel_items data = Inr items" and
    rel: "list_all2 (\<lambda>it p. build_post E cfg it = Inr p) (filter (selected cfg) items) posts"
    by blast
  from rel have "list_all2 (\<lambda>it p. \<exists>d ds. pubDate it = d # ds
                        \<and> fm_date (frontmatter p) = fromRFC2822_toISODate E d)
              (filter (selected cfg) items) posts"
    by (rule list_all2_mono) (rule build_post_date)
  with items show "\<exists>items. channel_items data = Inr items
         \<and> list_all2 (\<lambda>it p. \<exists>d ds. pubDate it = d # ds
                        \<and> fm_date (frontmatter p) = fromRFC2822_toISODate E d)
              (filter (selected cfg) items) posts"
    by blast
next
  show "fromRFC2822_toISODate sample_env = rfc2822_iso_date"
    by (simp add: sample_env_def)
next
  show "rfc2822_iso_date ''Wed, 01 Jan 2020 00:00:00 +0000'' = Str ''2020-01-01''"
    by (rule date_utc)
next
  show "pubDate sample_post = [''Wed, 01 Jan 2020 00:00:00 +0000'']"
    by (simp add: sample_post_def)
next
  show "getPostDate sample_env sample_post = Inr (Str ''2020-01-01'')"
    by (simp add: getPostDate_def sample_post_def sample_env_def date_utc)
qed

theorem post_date_iso_witness:
  "collectPosts sample_env sample_document sample_config = Inr sample_posts
   \<and> list_all2 (\<lambda>it p. \<exists>d ds. pubDate it = d # ds
                  \<and> fm_date (frontmatter p) = rfc2822_iso_date d)
        [sample_post, sample_page] sample_posts
   \<and> map (\<lambda>p. fm_date (frontmatter p)) sample_posts = [Str ''2020-01-01'', Str ''2020-01-02'']"
proof -
  from post_date_iso [of sample_env sample_document sample_config sample_posts] sample_posts
  obtain items where items: "channel_items sample_document = Inr items" and
    rel: "list_all2 (\<lambda>it p. \<exists>d ds. pubDate it = d # ds
                  \<and> fm_date (frontmatter p) = fromRFC2822_toISODate sample_env d)
        (filter (selected sample_config) items) sample_posts"
    by blast
  from items have eq: "items = [sample_post, sample_attachment, sample_draft, sample_page]"
    by (simp add: sample_items)
  have conv: "fromRFC2822_toISODate sample_env = rfc2822_iso_date"
    by (simp add: sample_env_def)
  have "map (\<lambda>p. fm_date (frontmatter p)) sample_posts = [Str ''2020-01-01'', Str ''2020-01-02'']"
    by (simp add: sample_posts_def post_record_def page_record_def)
  with rel show ?thesis
    unfolding eq sample_selected conv using sample_posts by simp
qed

section \<open>The lookup table and the post ids\<close>

lemma own_build_lookup_key [simp]:
  "own (build_lookup ps n L) ''__proto__'' = own L ''__proto__''"
  by (induction ps arbitrary: n L) (simp_all add: set_prop_def)

lemma own_build_lookup_Some:
  assumes "own (build_lookup ps n L) k = Some i"
  shows "own L k = Some i
         \<or> (n \<le> i \<and> i < n + length ps \<and> meta_id (meta (ps ! (i - n))) = k)"
  using assms
proof (induction ps arbitrary: n L)
  case Nil
  then show ?case by simp
next
  case (Cons p ps)
  from Cons.IH [of "Suc n" "set_prop L (meta_id (meta p)) n"] Cons.prems
  consider "own (set_prop L (meta_id (meta p)) n) k = Some i"
    | "Suc n \<le> i" and "i < Suc n + length ps" and "meta_id (meta (ps ! (i - Suc n))) = k"
    by auto
  then show ?case
  proof cases
    case 1
    then show ?thesis
      by (auto simp: set_prop_def split: if_splits)
  next
    case 2
    then show ?thesis
      by (auto simp: Suc_diff_le)
  qed
qed

lemma proto_build_lookup_Some:
  assumes "proto (build_lookup ps n L) = Some i"
  shows "proto L = Some i
         \<or> (n \<le> i \<and> i < n + length ps \<and> meta_id (meta (ps ! (i - n))) = ''__proto__'')"
  using assms
proof (induction ps arbitrary: n L)
  case Nil
  then show ?case by simp
next
  case (Cons p ps)
  from Cons.IH [of "Suc n" "set_prop L (meta_id (meta p)) n"] Cons.prems
  consider "proto (set_prop L (meta_id (meta p)) n) = Some i"
    | "Suc n \<le> i" and "i < Suc n + length ps"
      and "meta_id (meta (ps ! (i - Suc n))) = ''__proto__''"
    by auto
  then show ?case
  proof cases
    case 1
    then show ?thesis
      by (auto simp: set_prop_def split: if_splits)
  next
    case 2
    then show ?thesis
      by (auto simp: Suc_diff_le)
  qed
qed

text \<open>A key the table resolves to a post is the id of that post.\<close>

lemma lookup_sound:
  assumes "get_prop ps (postsLookup posts) k = PostRef i"
  shows "i < length posts \<and> meta_id (meta (posts ! i)) = k"
proof (cases "own (postsLookup posts) k")
  case (Some j)
  with assms have "own (build_lookup posts 0 empty_lookup) k = Some i"
    by (simp add: get_prop_def postsLookup_def)
  from own_build_lookup_Some [OF this] show ?thesis
    by (simp add: empty_lookup_def)
next
  case None
  with assms have "proto (build_lookup posts 0 empty_lookup) = Some i" and "k = ''__proto__''"
    by (auto simp: get_prop_def postsLookup_def inherited_def split: option.splits if_splits)
  with proto_build_lookup_Some [of posts 0 empty_lookup i] show ?thesis
    by (simp add: empty_lookup_def)
qed

lemma own_build_lookup_distinct:
  assumes "distinct (map (\<lambda>p. meta_id (meta p)) ps)" and "j < length ps"
    and "meta_id (meta (ps ! j)) \<noteq> ''__proto__''"
  shows "own (build_lookup ps n L) (meta_id (meta (ps ! j))) = Some (n + j)"
  using assms
proof (induction ps arbitrary: n L j)
  case Nil
  then show ?case by simp
next
  case (Cons p ps)
  show ?case
  proof (cases j)
    case 0
    with Cons.prems show ?thesis
      by (simp add: own_build_lookup_other set_prop_def)
  next
    case (Suc j')
    with Cons.prems Cons.IH [of j' "Suc n" "set_prop L (meta_id (meta p)) n"] show ?thesis
      by simp
  qed
qed

lemma proto_build_lookup_distinct:
  assumes "distinct (map (\<lambda>p. meta_id (meta p)) ps)" and "j < length ps"
    and "meta_id (meta (ps ! j)) = ''__proto__''"
  shows "proto (build_lookup ps n L) = Some (n + j)"
  using assms
proof (induction ps arbitrary: n L j)
  case Nil
  then show ?case by simp
next
  case (Cons p ps)
  show ?case
  proof (cases j)
    case 0
    with Cons.prems have "''__proto__'' \<notin> set (map (\<lambda>p. meta_id (meta p)) ps)"
      by auto
    from proto_build_lookup_other [OF this] 0 Cons.prems show ?thesis
      by (simp add: set_prop_def)
  next
    case (Suc j')
    with Cons.prems Cons.IH [of j' "Suc n" "set_prop L (meta_id (meta p)) n"] show ?thesis
      by simp
  qed
qed

text \<open>When the post ids are unique, as the export assigns them, the table resolves
  the id of every post to that post, and the image references of a post are those
  that carry its id.\<close>

lemma lookup_complete:
  assumes "distinct (map (\<lambda>p. meta_id (meta p)) posts)" and "i < length posts"
  shows "get_prop ps (postsLookup posts) (meta_id (meta (posts ! i))) = PostRef i"
proof (cases "meta_id (meta (posts ! i)) = ''__proto__''")
  case True
  from proto_build_lookup_distinct [OF assms True, of 0 empty_lookup] True show ?thesis
    by (simp add: get_prop_def postsLookup_def empty_lookup_def)
next
  case False
  from own_build_lookup_distinct [OF assms False, of 0 empty_lookup] show ?thesis
    by (simp add: get_prop_def postsLookup_def)
qed

lemma images_of_post_id:
  assumes "distinct (map (\<lambda>p. meta_id (meta p)) posts)" and "i < length posts"
  shows "images_of posts i images
           = filter (\<lambda>im. img_postId im = meta_id (meta (posts ! i))) images"
  unfolding images_of_def
proof (rule filter_cong [OF refl])
  fix im
  show "(get_prop posts (postsLookup posts) (img_postId im) = PostRef i)
      = (img_postId im = meta_id (meta (posts ! i)))"
    using lookup_sound [of posts posts "img_postId im" i] lookup_complete [OF assms, of posts]
    by auto
qed

end
